theory Spec2Isabelle
  imports Main "HOL-Library.AList" "HOL-Library.Sublist"
begin

section \<open>i2pkg: export of configuration packages over HTTP\<close>

text \<open>
  The program is one Go file, \<^verbatim>\<open>main.go\<close>: \<^verbatim>\<open>main\<close> checks its flags and the
  password variable, loads a CA file, lists the packages of the API, lists the files of
  every package's active stage, fetches every file and writes one JSON bundle per package.
  \<^verbatim>\<open>sendReq\<close> issues one request.

  Go strings and byte slices are byte sequences: \<open>string\<close> here (a \<open>char\<close> is a byte).
  What the program does to the outside is kept in a \<open>world\<close>: the exchanges with the
  server and the file operations in the order they happen, the redirects the HTTP
  client followed, and what was written to standard error. What the outside answers is an \<open>environment\<close> of functions; those that
  can answer differently over time take the events so far.
\<close>

type_synonym bytes = string

type_synonym addr = nat

subsection \<open>Library functions of Go the program calls\<close>

text \<open>\<^verbatim>\<open>strings.Contains(s, substr)\<close>.\<close>

fun Contains :: "string \<Rightarrow> string \<Rightarrow> bool" where
  "Contains [] substr = (substr = [])"
| "Contains (c # s) substr = (prefix substr (c # s) \<or> Contains s substr)"

text \<open>
  \<^verbatim>\<open>url.PathEscape\<close> of \<^verbatim>\<open>net/url\<close>: every byte that \<^verbatim>\<open>shouldEscape\<close> selects in the
  mode \<^verbatim>\<open>encodePathSegment\<close> becomes \<^verbatim>\<open>%XX\<close> with upper-case hexadecimal digits.
\<close>

definition upperhex :: string where
  "upperhex = ''0123456789ABCDEF''"

definition isAlnum :: "char \<Rightarrow> bool" where
  "isAlnum c = (let n = (of_char c :: nat) in
     (97 \<le> n \<and> n \<le> 122) \<or> (65 \<le> n \<and> n \<le> 90) \<or> (48 \<le> n \<and> n \<le> 57))"

definition shouldEscape :: "char \<Rightarrow> bool" where
  "shouldEscape c =
     (if isAlnum c then False
      else if c \<in> set ''-_.~'' then False
      else if c \<in> set ''$&+,/:;=?@'' then
        (c = CHR ''/'' \<or> c = CHR '';'' \<or> c = CHR '','' \<or> c = CHR ''?'')
      else True)"

definition escapeByte :: "char \<Rightarrow> string" where
  "escapeByte c =
     (if shouldEscape c
      then [CHR ''%'', upperhex ! ((of_char c :: nat) div 16), upperhex ! ((of_char c :: nat) mod 16)]
      else [c])"

definition PathEscape :: "string \<Rightarrow> string" where
  "PathEscape s = concat (map escapeByte s)"

text \<open>\<^verbatim>\<open>fmt.Sprintf("%d", n)\<close>.\<close>

fun digits :: "nat \<Rightarrow> string" where
  "digits n = (if n < 10 then [''0123456789'' ! n] else digits (n div 10) @ [''0123456789'' ! (n mod 10)])"

declare digits.simps [simp del]

definition itoa :: "int \<Rightarrow> string" where
  "itoa i = (if i < 0 then CHR ''-'' # digits (nat (- i)) else digits (nat i))"

text \<open>
  \<^verbatim>\<open>utf8.DecodeRuneInString\<close>: the code point at the head of the bytes and its width;
  \<open>(RuneError, 1)\<close> where the bytes are not valid UTF-8. The tables \<^verbatim>\<open>first\<close> and
  \<^verbatim>\<open>acceptRanges\<close> of the library are written as the comparisons they encode.
\<close>

definition RuneError :: nat where
  "RuneError = 0xFFFD"

fun DecodeRuneInString :: "bytes \<Rightarrow> nat \<times> nat" where
  "DecodeRuneInString [] = (RuneError, 0)"
| "DecodeRuneInString (c0 # s) =
     (let s0 = (of_char c0 :: nat) in
      if s0 < 0x80 then (s0, 1)
      else if s0 < 0xC2 \<or> 0xF4 < s0 then (RuneError, 1)
      else
        let sz = (if s0 < 0xE0 then 2 else if s0 < 0xF0 then 3 else (4::nat));
            lo = (if s0 = 0xE0 then 0xA0 else if s0 = 0xF0 then 0x90 else (0x80::nat));
            hi = (if s0 = 0xED then 0x9F else if s0 = 0xF4 then 0x8F else (0xBF::nat))
        in if Suc (length s) < sz then (RuneError, 1)
           else
             let s1 = (of_char (s ! 0) :: nat) in
             if s1 < lo \<or> hi < s1 then (RuneError, 1)
             else if sz \<le> 2 then ((s0 mod 32) * 64 + s1 mod 64, 2)
             else
               let s2 = (of_char (s ! 1) :: nat) in
               if s2 < 0x80 \<or> 0xBF < s2 then (RuneError, 1)
               else if sz \<le> 3 then ((s0 mod 16) * 4096 + (s1 mod 64) * 64 + s2 mod 64, 3)
               else
                 let s3 = (of_char (s ! 2) :: nat) in
                 if s3 < 0x80 \<or> 0xBF < s3 then (RuneError, 1)
                 else ((s0 mod 8) * 262144 + (s1 mod 64) * 4096 + (s2 mod 64) * 64 + s3 mod 64, 4))"

text \<open>
  The string encoding of \<^verbatim>\<open>encoding/json\<close> as \<^verbatim>\<open>json.Encoder\<close> uses it (HTML
  escaping on): a byte of \<^verbatim>\<open>htmlSafeSet\<close> is copied; the other ASCII bytes are
  escaped; a byte that does not start a valid UTF-8 sequence is replaced by U+FFFD;
  U+2028 and U+2029 are escaped; every other code point is copied. \<open>jsonString\<close> puts
  the quotes around it. (Before Go 1.22 the bytes 8 and 12 were written as six-character
  escapes as well.)

  The encoders of the Go releases differ in how they write the U+FFFD that replaces an
  invalid byte: the original encoder writes the six characters backslash, u, f, f, f, d;
  the encoder of newer releases writes the character itself, the three bytes EF BF BD.
  Which one a build of the program has is a parameter.
\<close>

definition hex :: string where
  "hex = ''0123456789abcdef''"

definition backslash :: char where
  "backslash = CHR 0x5C"

definition dquote :: char where
  "dquote = CHR 0x22"

definition htmlSafe :: "char \<Rightarrow> bool" where
  "htmlSafe b = (0x20 \<le> (of_char b :: nat) \<and> (of_char b :: nat) < 0x80 \<and>
     b \<noteq> dquote \<and> b \<noteq> CHR ''&'' \<and> b \<noteq> CHR ''<'' \<and> b \<noteq> CHR ''>'' \<and> b \<noteq> backslash)"

definition escapeASCII :: "char \<Rightarrow> bytes" where
  "escapeASCII b =
     (if b = backslash \<or> b = dquote then [backslash, b]
      else if b = CHR 0x08 then [backslash, CHR ''b'']
      else if b = CHR 0x0C then [backslash, CHR ''f'']
      else if b = CHR 0x0A then [backslash, CHR ''n'']
      else if b = CHR 0x0D then [backslash, CHR ''r'']
      else if b = CHR 0x09 then [backslash, CHR ''t'']
      else [backslash, CHR ''u'', CHR ''0'', CHR ''0'',
            hex ! ((of_char b :: nat) div 16), hex ! ((of_char b :: nat) mod 16)])"

datatype replacement =
  Escaped
| Raw

fun replacementText :: "replacement \<Rightarrow> bytes" where
  "replacementText Escaped = backslash # ''ufffd''"
| "replacementText Raw = [CHR 0xEF, CHR 0xBF, CHR 0xBD]"

fun appendString :: "replacement \<Rightarrow> bytes \<Rightarrow> bytes" where
  "appendString rp [] = []"
| "appendString rp (b # src) =
     (if (of_char b :: nat) < 0x80 then
        (if htmlSafe b then [b] else escapeASCII b) @ appendString rp src
      else
        (case DecodeRuneInString (b # src) of (c, sz) \<Rightarrow>
           if c = RuneError \<and> sz = 1 then
             replacementText rp @ appendString rp src
           else if c = 0x2028 \<or> c = 0x2029 then
             (backslash # ''u202'' @ [hex ! (c mod 16)]) @ appendString rp (drop (sz - 1) src)
           else b # take (sz - 1) src @ appendString rp (drop (sz - 1) src)))"

definition jsonString :: "replacement \<Rightarrow> bytes \<Rightarrow> bytes" where
  "jsonString rp s = dquote # appendString rp s @ [dquote]"

text \<open>
  A Go \<^verbatim>\<open>map[string]string\<close> is an association list with one pair per key;
  \<^verbatim>\<open>m[k] = v\<close> is \<^const>\<open>AList.update\<close>. The encoder writes the pairs of a map
  sorted by key, the keys compared as byte strings.
\<close>

fun bytesLess :: "bytes \<Rightarrow> bytes \<Rightarrow> bool" where
  "bytesLess [] [] = False"
| "bytesLess [] (y # ys) = True"
| "bytesLess (x # xs) [] = False"
| "bytesLess (x # xs) (y # ys) =
     ((of_char x :: nat) < of_char y \<or> (x = y \<and> bytesLess xs ys))"

fun insertByKey :: "string \<times> string \<Rightarrow> (string \<times> string) list \<Rightarrow> (string \<times> string) list" where
  "insertByKey kv [] = [kv]"
| "insertByKey kv (p # ps) =
     (if bytesLess (fst kv) (fst p) then kv # p # ps else p # insertByKey kv ps)"

definition sortByKey :: "(string \<times> string) list \<Rightarrow> (string \<times> string) list" where
  "sortByKey m = foldr insertByKey m []"

fun joinWith :: "bytes \<Rightarrow> bytes list \<Rightarrow> bytes" where
  "joinWith sep [] = []"
| "joinWith sep [x] = x"
| "joinWith sep (x # y # ys) = x @ sep @ joinWith sep (y # ys)"

definition encodeMap :: "replacement \<Rightarrow> (string \<times> string) list \<Rightarrow> bytes" where
  "encodeMap rp m =
     ''{'' @ joinWith '','' (map (\<lambda>kv. jsonString rp (fst kv) @ '':'' @ jsonString rp (snd kv)) (sortByKey m)) @ ''}''"

text \<open>
  \<^verbatim>\<open>json.NewEncoder(buf).Encode(&struct{ Files map[string]string `json:"files"` }{uploadFiles})\<close>:
  the object with the one member \<^verbatim>\<open>files\<close>, and the newline \<^verbatim>\<open>Encode\<close> ends with.
\<close>

definition encodeBundle :: "replacement \<Rightarrow> (string \<times> string) list \<Rightarrow> bytes" where
  "encodeBundle rp uploadFiles =
     ''{'' @ jsonString rp ''files'' @ '':'' @ encodeMap rp uploadFiles @ ''}'' @ [CHR 0x0A]"

subsection \<open>Requests, responses and errors\<close>

text \<open>
  \<^verbatim>\<open>http.Request\<close> and \<^verbatim>\<open>url.URL\<close> with the fields the program sets. A request holds
  pointers to its URL and to its header map, so both live in a store. \<open>Path\<close> is the
  field the program assigns; how \<^verbatim>\<open>net/http\<close> renders it in the request line is behind
  the transport.
\<close>

record URL =
  Scheme :: string
  Host :: string
  Path :: string

type_synonym Header = "(string \<times> string list) list"

record Request =
  Method :: string
  URLptr :: addr
  Headerptr :: addr
  Body :: "bytes option"

text \<open>What the transport is handed: the request with its pointers followed.\<close>

record wire =
  wMethod :: string
  wURL :: URL
  wHeader :: Header
  wBody :: "bytes option"

text \<open>
  What \<^verbatim>\<open>client.Do\<close> returns, and what a round trip of the transport gives: an error,
  or a response with its status code, the bytes its body yields, and the error the body's
  reader ends with, if any.
\<close>

datatype response =
  TransportError string
| Response int bytes "string option"

text \<open>The Go \<^verbatim>\<open>error\<close> values: \<^verbatim>\<open>badHttpStatus\<close> of this program, and the libraries' errors by their message.\<close>

datatype error =
  badHttpStatus int
| libError string

fun Error :: "error \<Rightarrow> string" where
  "Error (badHttpStatus code) = ''HTTP '' @ itoa code"
| "Error (libError msg) = msg"

text \<open>
  What a run does to the outside, in order: a request the program hands to
  \<^verbatim>\<open>client.Do\<close> with what \<^verbatim>\<open>client.Do\<close> returns for it, and the operations on bundle
  files that succeeded (of a failed write, the part that was written).
\<close>

datatype event =
  Exchange wire response
| Created string
| Wrote string bytes
| Closed string

text \<open>
  \<^verbatim>\<open>client.Do\<close> follows redirects: the client of \<^verbatim>\<open>main\<close> has no \<^verbatim>\<open>CheckRedirect\<close>. A
  round trip inside \<^verbatim>\<open>client.Do\<close> whose response the client followed is kept apart from
  the events: the request sent, the status of the response, and its \<^verbatim>\<open>Location\<close>.
\<close>

datatype redirect =
  Redirect wire int string

text \<open>
  The store of requests, URLs and header maps with its next free address, the events so
  far, the redirects followed so far, and standard error.
\<close>

record world =
  requests :: "addr \<Rightarrow> Request"
  urls :: "addr \<Rightarrow> URL"
  headers :: "addr \<Rightarrow> Header"
  nextAddr :: addr
  events :: "event list"
  redirects :: "redirect list"
  stderr :: bytes

text \<open>The elements of \<^verbatim>\<open>packages.Results\<close> and of \<^verbatim>\<open>files.Results\<close>.\<close>

record package =
  pkgName :: string
  pkgActiveStage :: string

record file_entry =
  fileName :: string
  fileType :: string

datatype write_result =
  WriteOk
| WriteErr nat string

text \<open>
  The outside. \<open>roundTrip\<close> is the transport behind \<^verbatim>\<open>httpLogger\<close> (which prints the
  method and the URL of every request it passes on): one request, one response, with
  the value of the response's \<^verbatim>\<open>Location\<close> header (empty when it has none); it reads
  the request it is handed and does not change it, as \<^verbatim>\<open>http.RoundTripper\<close> requires,
  and it can answer by what has happened so far. \<open>redirectTo\<close> is what \<^verbatim>\<open>client.Do\<close>
  makes of a \<^verbatim>\<open>Location\<close>, from the first request of the call and the one just sent:
  the URL (\<^verbatim>\<open>req.URL.Parse\<close>) and the header of the next request, or the message of the
  error it returns when the value does not parse. \<open>stopped\<close> is the message of the
  error \<^verbatim>\<open>client.Do\<close> returns when it refuses another redirect. \<open>base64\<close> is the
  encoding \<^verbatim>\<open>SetBasicAuth\<close> applies. \<open>decodePackages\<close> and \<open>decodeFiles\<close> are
  \<^verbatim>\<open>json.Decoder.Decode\<close> into the two result structures, from a body's bytes and its
  read error. \<open>invalidUTF8\<close> says which encoder the build has. \<open>fileWrite\<close> is the one
  write of the encoded bundle that \<^verbatim>\<open>Encode\<close> and \<^verbatim>\<open>Flush\<close> make through the buffer:
  \<open>WriteErr n msg\<close> when it fails after \<open>n\<close> bytes.
\<close>

record environment =
  getenv :: "string \<Rightarrow> string"
  readFile :: "string \<Rightarrow> string + bytes"
  appendCertsFromPEM :: "bytes \<Rightarrow> bool"
  base64 :: "bytes \<Rightarrow> string"
  roundTrip :: "event list \<Rightarrow> redirect list \<Rightarrow> wire \<Rightarrow> response \<times> string"
  redirectTo :: "wire \<Rightarrow> wire \<Rightarrow> string \<Rightarrow> string + URL \<times> Header"
  stopped :: "wire \<Rightarrow> string \<Rightarrow> string"
  invalidUTF8 :: replacement
  decodePackages :: "bytes \<Rightarrow> string option \<Rightarrow> string + package list"
  decodeFiles :: "bytes \<Rightarrow> string option \<Rightarrow> string + file_entry list"
  osCreate :: "event list \<Rightarrow> string \<Rightarrow> string option"
  fileWrite :: "event list \<Rightarrow> string \<Rightarrow> bytes \<Rightarrow> write_result"
  fileClose :: "event list \<Rightarrow> string \<Rightarrow> string option"

subsection \<open>The store\<close>

definition newRequest :: "Request \<Rightarrow> world \<Rightarrow> addr \<times> world" where
  "newRequest r w = (nextAddr w, w\<lparr>requests := (requests w)(nextAddr w := r), nextAddr := Suc (nextAddr w)\<rparr>)"

definition newURL :: "URL \<Rightarrow> world \<Rightarrow> addr \<times> world" where
  "newURL u w = (nextAddr w, w\<lparr>urls := (urls w)(nextAddr w := u), nextAddr := Suc (nextAddr w)\<rparr>)"

definition newHeader :: "Header \<Rightarrow> world \<Rightarrow> addr \<times> world" where
  "newHeader h w = (nextAddr w, w\<lparr>headers := (headers w)(nextAddr w := h), nextAddr := Suc (nextAddr w)\<rparr>)"

definition setMethod :: "addr \<Rightarrow> string \<Rightarrow> world \<Rightarrow> world" where
  "setMethod a m w = w\<lparr>requests := (requests w)(a := (requests w a)\<lparr>Method := m\<rparr>)\<rparr>"

definition setURL :: "addr \<Rightarrow> addr \<Rightarrow> world \<Rightarrow> world" where
  "setURL a u w = w\<lparr>requests := (requests w)(a := (requests w a)\<lparr>URLptr := u\<rparr>)\<rparr>"

definition setBody :: "addr \<Rightarrow> bytes option \<Rightarrow> world \<Rightarrow> world" where
  "setBody a b w = w\<lparr>requests := (requests w)(a := (requests w a)\<lparr>Body := b\<rparr>)\<rparr>"

definition setPath :: "addr \<Rightarrow> string \<Rightarrow> world \<Rightarrow> world" where
  "setPath u p w = w\<lparr>urls := (urls w)(u := (urls w u)\<lparr>Path := p\<rparr>)\<rparr>"

definition onWire :: "addr \<Rightarrow> world \<Rightarrow> wire" where
  "onWire a w =
     \<lparr>wMethod = Method (requests w a), wURL = urls w (URLptr (requests w a)),
      wHeader = headers w (Headerptr (requests w a)), wBody = Body (requests w a)\<rparr>"

definition Fprintln :: "string \<Rightarrow> world \<Rightarrow> world" where
  "Fprintln msg w = w\<lparr>stderr := stderr w @ msg @ [CHR 0x0A]\<rparr>"

subsection \<open>client.Do\<close>

text \<open>
  \<^verbatim>\<open>redirectBehavior\<close> of \<^verbatim>\<open>net/http\<close>: whether the client redirects on a status, and
  with which method. The first request of the call, \<open>ireq\<close>, has no \<^verbatim>\<open>GetBody\<close>
  (\<^verbatim>\<open>sendReq\<close> sets none) and, when it has a body, no known length: on 307 and 308 such
  a request is not redirected.
\<close>

definition redirectBehavior :: "string \<Rightarrow> int \<Rightarrow> wire \<Rightarrow> string option" where
  "redirectBehavior reqMethod StatusCode ireq =
     (if StatusCode = 301 \<or> StatusCode = 302 \<or> StatusCode = 303 then
        Some (if reqMethod \<noteq> ''GET'' \<and> reqMethod \<noteq> ''HEAD'' then ''GET'' else reqMethod)
      else if StatusCode = 307 \<or> StatusCode = 308 then
        (if wBody ireq \<noteq> None then None else Some reqMethod)
      else None)"

text \<open>
  The loop of \<^verbatim>\<open>Client.do\<close>, from the sending of \<open>req\<close>, the request number \<open>n\<close> of the
  call: a transport error ends it; a response that is no redirect, or has no
  \<^verbatim>\<open>Location\<close>, is returned; a \<^verbatim>\<open>Location\<close> that does not parse is an error; the
  default policy (\<^verbatim>\<open>defaultCheckRedirect\<close>) refuses the redirect when ten requests have
  been made; otherwise the next request goes to the new URL, without a body. The result
  is what \<^verbatim>\<open>client.Do\<close> returns and the redirects followed.
\<close>

function do_loop ::
  "environment \<Rightarrow> event list \<Rightarrow> wire \<Rightarrow> wire \<Rightarrow> redirect list \<Rightarrow> nat \<Rightarrow> response \<times> redirect list" where
  "do_loop env evs ireq req reds n =
     (case roundTrip env evs reds req of
        (TransportError err, loc) \<Rightarrow> (TransportError err, reds)
      | (Response StatusCode body readErr, loc) \<Rightarrow>
          (case redirectBehavior (wMethod req) StatusCode ireq of
             None \<Rightarrow> (Response StatusCode body readErr, reds)
           | Some redirectMethod \<Rightarrow>
               if loc = [] then (Response StatusCode body readErr, reds)
               else
                 (case redirectTo env ireq req loc of
                    Inl err \<Rightarrow> (TransportError err, reds)
                  | Inr (u, h) \<Rightarrow>
                      if 10 \<le> n then (TransportError (stopped env req loc), reds)
                      else do_loop env evs ireq
                             \<lparr>wMethod = redirectMethod, wURL = u, wHeader = h, wBody = None\<rparr>
                             (reds @ [Redirect req StatusCode loc]) (Suc n))))"
  by pat_completeness auto

termination
  by (relation "measure (\<lambda>(env, evs, ireq, req, reds, n). 10 - n)") auto

declare do_loop.simps [simp del]

definition clientDo :: "environment \<Rightarrow> wire \<Rightarrow> world \<Rightarrow> response \<times> world" where
  "clientDo env req w =
     (case do_loop env (events w) req req (redirects w) 1 of
        (resp, reds) \<Rightarrow> (resp, w\<lparr>redirects := reds\<rparr>))"

subsection \<open>sendReq\<close>

text \<open>
  \<open>inp\<close> is the argument \<^verbatim>\<open>in\<close>: \<open>None\<close> for nil, else what \<^verbatim>\<open>Encode(in)\<close> gives, an
  error message or the encoded bytes. \<open>out\<close> is the argument \<^verbatim>\<open>out\<close>: nil, a pointer
  to a byte slice, or a pointer to a structure with its decoder; what is stored through
  the pointer is returned.
\<close>

datatype 'a out =
  OutNil
| OutBytes
| OutJSON "bytes \<Rightarrow> string option \<Rightarrow> string + 'a"

datatype 'a got =
  GotNothing
| GotBytes bytes
| GotJSON 'a

definition doRequest :: "environment \<Rightarrow> addr \<Rightarrow> 'a out \<Rightarrow> world \<Rightarrow> (error + 'a got) \<times> world" where
  "doRequest env req out w =
     (case clientDo env (onWire req w) w of (resp, w) \<Rightarrow>
      let w = w\<lparr>events := events w @ [Exchange (onWire req w) resp]\<rparr>
      in case resp of
           TransportError errDo \<Rightarrow> (Inl (libError errDo), w)
         | Response StatusCode body readErr \<Rightarrow>
             if StatusCode \<noteq> 200 then
               (Inl (badHttpStatus StatusCode), w\<lparr>stderr := stderr w @ body\<rparr>)
             else
               (case out of
                  OutNil \<Rightarrow> (Inr GotNothing, w)
                | OutBytes \<Rightarrow>
                    (case readErr of
                       Some errRA \<Rightarrow> (Inl (libError errRA), w)
                     | None \<Rightarrow> (Inr (GotBytes body), w))
                | OutJSON decode \<Rightarrow>
                    (case decode body readErr of
                       Inl errDc \<Rightarrow> (Inl (libError errDc), w)
                     | Inr v \<Rightarrow> (Inr (GotJSON v), w))))"

definition sendReq ::
  "environment \<Rightarrow> addr \<Rightarrow> string \<Rightarrow> string \<Rightarrow> (string + bytes) option \<Rightarrow> 'a out \<Rightarrow> world
     \<Rightarrow> (error + 'a got) \<times> world" where
  "sendReq env base method uri inp out w =
     (case newRequest (requests w base) w of (req, w) \<Rightarrow>
      case newURL (urls w (URLptr (requests w req))) w of (url, w) \<Rightarrow>
      let w = setMethod req method w;
          w = setURL req url w;
          w = setPath url uri w
      in case inp of
           None \<Rightarrow> doRequest env req out w
         | Some (Inl errEc) \<Rightarrow> (Inl (libError errEc), w)
         | Some (Inr buf) \<Rightarrow> doRequest env req out (setBody req (Some buf) w))"

subsection \<open>main\<close>

definition exitWith :: "int \<Rightarrow> string \<Rightarrow> world \<Rightarrow> (int + 'a) \<times> world" where
  "exitWith code msg w = (Inl code, Fprintln msg w)"

text \<open>A variable keeps its zero value when nothing was stored through the pointer.\<close>

fun bytesOr :: "bytes \<Rightarrow> unit got \<Rightarrow> bytes" where
  "bytesOr d (GotBytes b) = b"
| "bytesOr d _ = d"

fun jsonOr :: "'a \<Rightarrow> 'a got \<Rightarrow> 'a" where
  "jsonOr d (GotJSON v) = v"
| "jsonOr d _ = d"

text \<open>The loop over \<^verbatim>\<open>files.Results\<close>, from the map \<^verbatim>\<open>uploadFiles\<close> so far.\<close>

fun filesLoop ::
  "environment \<Rightarrow> addr \<Rightarrow> package \<Rightarrow> file_entry list \<Rightarrow> (string \<times> string) list \<Rightarrow> world
     \<Rightarrow> (int + (string \<times> string) list) \<times> world" where
  "filesLoop env req pkg [] uploadFiles w = (Inr uploadFiles, w)"
| "filesLoop env req pkg (file # rest) uploadFiles w =
     (if fileType file = ''file'' \<and> Contains (fileName file) ''/'' then
        (case sendReq env req ''GET''
                (''/v1/config/files/'' @ PathEscape (pkgName pkg) @ ''/'' @
                   PathEscape (pkgActiveStage pkg) @ ''/'' @ fileName file)
                None (OutBytes :: unit out) w of
           (Inl errSR, w) \<Rightarrow> exitWith 1 (Error errSR) w
         | (Inr content, w) \<Rightarrow>
             filesLoop env req pkg rest
               (AList.update (fileName file) (bytesOr [] content) uploadFiles) w)
      else filesLoop env req pkg rest uploadFiles w)"

text \<open>The block \<^verbatim>\<open>if len(uploadFiles) > 0 { ... }\<close>.\<close>

definition writeBundle ::
  "environment \<Rightarrow> package \<Rightarrow> (string \<times> string) list \<Rightarrow> world \<Rightarrow> (int + unit) \<times> world" where
  "writeBundle env pkg uploadFiles w =
     (if length uploadFiles > 0 then
        (let f = PathEscape (pkgName pkg) @ ''.json'' in
         case osCreate env (events w) f of
           Some errOp \<Rightarrow> exitWith 1 errOp w
         | None \<Rightarrow>
             (let w = w\<lparr>events := events w @ [Created f]\<rparr>;
                  buf = encodeBundle (invalidUTF8 env) uploadFiles
              in case fileWrite env (events w) f buf of
                   WriteErr n errFl \<Rightarrow>
                     exitWith 1 errFl (w\<lparr>events := events w @ [Wrote f (take n buf)]\<rparr>)
                 | WriteOk \<Rightarrow>
                     (let w = w\<lparr>events := events w @ [Wrote f buf]\<rparr>
                      in case fileClose env (events w) f of
                           Some errCl \<Rightarrow> exitWith 1 errCl w
                         | None \<Rightarrow> (Inr (), w\<lparr>events := events w @ [Closed f]\<rparr>))))
      else (Inr (), w))"

text \<open>The body of the loop over \<^verbatim>\<open>packages.Results\<close> for a package it does not skip.\<close>

definition exportPkg :: "environment \<Rightarrow> addr \<Rightarrow> package \<Rightarrow> world \<Rightarrow> (int + unit) \<times> world" where
  "exportPkg env req pkg w =
     (case sendReq env req ''GET''
             (''/v1/config/stages/'' @ PathEscape (pkgName pkg) @ ''/'' @ PathEscape (pkgActiveStage pkg))
             None (OutJSON (decodeFiles env)) w of
        (Inl errSR, w) \<Rightarrow> exitWith 1 (Error errSR) w
      | (Inr files, w) \<Rightarrow>
          (case filesLoop env req pkg (jsonOr [] files) [] w of
             (Inl code, w) \<Rightarrow> (Inl code, w)
           | (Inr uploadFiles, w) \<Rightarrow> writeBundle env pkg uploadFiles w))"

fun pkgsLoop :: "environment \<Rightarrow> addr \<Rightarrow> package list \<Rightarrow> world \<Rightarrow> (int + unit) \<times> world" where
  "pkgsLoop env req [] w = (Inr (), w)"
| "pkgsLoop env req (pkg # rest) w =
     (if pkgName pkg \<noteq> [] \<and> pkgActiveStage pkg \<noteq> [] then
        (case exportPkg env req pkg w of
           (Inl code, w) \<Rightarrow> (Inl code, w)
         | (Inr _, w) \<Rightarrow> pkgsLoop env req rest w)
      else pkgsLoop env req rest w)"

text \<open>The command line: each flag as given, or not given.\<close>

record cmdline =
  host_flag :: "string option"
  port_flag :: "string option"
  ca_flag :: "string option"
  cn_flag :: "string option"
  user_flag :: "string option"

definition flagString :: "string option \<Rightarrow> string \<Rightarrow> string" where
  "flagString given dflt = (case given of None \<Rightarrow> dflt | Some v \<Rightarrow> v)"

definition world0 :: world where
  "world0 =
     \<lparr>requests = (\<lambda>_. \<lparr>Method = [], URLptr = 0, Headerptr = 0, Body = None\<rparr>),
      urls = (\<lambda>_. \<lparr>Scheme = [], Host = [], Path = []\<rparr>),
      headers = (\<lambda>_. []),
      nextAddr = 0, events = [], redirects = [], stderr = []\<rparr>"

text \<open>\<^verbatim>\<open>req.SetBasicAuth(user, pass)\<close>.\<close>

definition SetBasicAuth :: "environment \<Rightarrow> addr \<Rightarrow> string \<Rightarrow> string \<Rightarrow> world \<Rightarrow> world" where
  "SetBasicAuth env req username password w =
     w\<lparr>headers := (headers w)(Headerptr (requests w req) :=
          AList.update ''Authorization'' [''Basic '' @ base64 env (username @ '':'' @ password)]
            (headers w (Headerptr (requests w req))))\<rparr>"

text \<open>
  \<open>main\<close> after \<^verbatim>\<open>flag.Parse()\<close>: the exit code (0 when \<^verbatim>\<open>main\<close> returns) and the world
  it leaves.
\<close>

definition main :: "cmdline \<Rightarrow> environment \<Rightarrow> int \<times> world" where
  "main cl env =
     (let host = flagString (host_flag cl) [];
          port = flagString (port_flag cl) ''5665'';
          ca = flagString (ca_flag cl) [];
          cn = flagString (cn_flag cl) [];
          user = flagString (user_flag cl) [];
          w = world0
      in if host = [] then (2, Fprintln ''-host missing'' w)
         else if port = [] then (2, Fprintln ''-port missing'' w)
         else if ca = [] then (2, Fprintln ''-ca missing'' w)
         else if cn = [] then (2, Fprintln ''-cn missing'' w)
         else if user = [] then (2, Fprintln ''-user missing'' w)
         else
           let pass = getenv env ''I2_PASS'' in
           if pass = [] then (2, Fprintln ''$I2_PASS missing'' w)
           else
             (case readFile env ca of
                Inl errRF \<Rightarrow> (1, Fprintln errRF w)
              | Inr pem \<Rightarrow>
                  if \<not> appendCertsFromPEM env pem then (1, Fprintln ''bad CA cert'' w)
                  else
                    (case newURL \<lparr>Scheme = ''https'', Host = host @ '':'' @ port, Path = []\<rparr> w of (u, w) \<Rightarrow>
                     case newHeader [] w of (h, w) \<Rightarrow>
                     case newRequest \<lparr>Method = [], URLptr = u, Headerptr = h, Body = None\<rparr> w of (req, w) \<Rightarrow>
                     let w = SetBasicAuth env req user pass w in
                     case sendReq env req ''GET'' ''/v1/config/packages'' None
                            (OutJSON (decodePackages env)) w of
                       (Inl errSR, w) \<Rightarrow> (1, Fprintln (Error errSR) w)
                     | (Inr packages, w) \<Rightarrow>
                         (case pkgsLoop env req (jsonOr [] packages) w of
                            (Inl code, w) \<Rightarrow> (code, w)
                          | (Inr _, w) \<Rightarrow> (0, w)))))"

section \<open>Notions the statements use\<close>

text \<open>
  What \<^verbatim>\<open>client.Do\<close> returns for a request in a world, and the redirects followed by
  then; what \<^verbatim>\<open>sendReq\<close> returns for a response, what it copies to standard error, the
  request it hands to \<^verbatim>\<open>client.Do\<close>, and the world it leaves.
\<close>

definition returned :: "environment \<Rightarrow> world \<Rightarrow> wire \<Rightarrow> response" where
  "returned env w q = fst (do_loop env (events w) q q (redirects w) 1)"

definition followed :: "environment \<Rightarrow> world \<Rightarrow> wire \<Rightarrow> redirect list" where
  "followed env w q = snd (do_loop env (events w) q q (redirects w) 1)"

definition answer :: "'a out \<Rightarrow> response \<Rightarrow> error + 'a got" where
  "answer out resp =
     (case resp of
        TransportError e \<Rightarrow> Inl (libError e)
      | Response c b rerr \<Rightarrow>
          if c \<noteq> 200 then Inl (badHttpStatus c)
          else (case out of
                  OutNil \<Rightarrow> Inr GotNothing
                | OutBytes \<Rightarrow> (case rerr of Some e \<Rightarrow> Inl (libError e) | None \<Rightarrow> Inr (GotBytes b))
                | OutJSON d \<Rightarrow> (case d b rerr of Inl e \<Rightarrow> Inl (libError e) | Inr v \<Rightarrow> Inr (GotJSON v))))"

definition echoed :: "response \<Rightarrow> bytes" where
  "echoed resp = (case resp of TransportError e \<Rightarrow> [] | Response c b rerr \<Rightarrow> if c \<noteq> 200 then b else [])"

definition wireFor :: "world \<Rightarrow> addr \<Rightarrow> string \<Rightarrow> string \<Rightarrow> wire" where
  "wireFor w base m uri =
     \<lparr>wMethod = m, wURL = (urls w (URLptr (requests w base)))\<lparr>Path := uri\<rparr>,
      wHeader = headers w (Headerptr (requests w base)), wBody = Body (requests w base)\<rparr>"

text \<open>
  Reading events: whether an event is an exchange, the path of its request, the body of
  its response, whether it gave the bytes of a file (status 200 and a body read to its
  end), and whether its response has a status other than 200.
\<close>

fun isExchange :: "event \<Rightarrow> bool" where
  "isExchange (Exchange q resp) = True"
| "isExchange _ = False"

fun pathOf :: "event \<Rightarrow> string" where
  "pathOf (Exchange q resp) = Path (wURL q)"
| "pathOf _ = []"

fun bodyOf :: "event \<Rightarrow> bytes" where
  "bodyOf (Exchange q (Response c b rerr)) = b"
| "bodyOf _ = []"

fun fetched :: "event \<Rightarrow> bool" where
  "fetched (Exchange q (Response c b rerr)) = (c = 200 \<and> rerr = None)"
| "fetched _ = False"

text \<open>The two conditions of the loops and the paths of the three requests, as \<^verbatim>\<open>main\<close> writes them.\<close>

abbreviation wantedFile :: "file_entry \<Rightarrow> bool" where
  "wantedFile file \<equiv> fileType file = ''file'' \<and> Contains (fileName file) ''/''"

abbreviation filesPath :: "package \<Rightarrow> file_entry \<Rightarrow> string" where
  "filesPath pkg file \<equiv> ''/v1/config/files/'' @ PathEscape (pkgName pkg) @ ''/'' @
                   PathEscape (pkgActiveStage pkg) @ ''/'' @ fileName file"

definition sent :: "environment \<Rightarrow> addr \<Rightarrow> string \<Rightarrow> string \<Rightarrow> world \<Rightarrow> world" where
  "sent env base m uri w = snd (sendReq env base m uri None (OutNil :: unit out) w)"

fun badStatus :: "event \<Rightarrow> bool" where
  "badStatus (Exchange q (Response c b rerr)) = (c \<noteq> 200)"
| "badStatus _ = False"

text \<open>
  A stage listing among the events, and the events from the last stage listing on (all
  of them when there is none): what the package in progress has done so far.
\<close>

definition isStages :: "event \<Rightarrow> bool" where
  "isStages e = (isExchange e \<and> prefix ''/v1/config/stages/'' (pathOf e))"

fun sinceLastStages :: "event list \<Rightarrow> event list" where
  "sinceLastStages [] = []"
| "sinceLastStages (e # es) = (if list_ex isStages es then sinceLastStages es else e # es)"

abbreviation stagesPath :: "package \<Rightarrow> string" where
  "stagesPath pkg \<equiv> ''/v1/config/stages/'' @ PathEscape (pkgName pkg) @ ''/'' @ PathEscape (pkgActiveStage pkg)"

abbreviation wantedPkg :: "package \<Rightarrow> bool" where
  "wantedPkg pkg \<equiv> pkgName pkg \<noteq> [] \<and> pkgActiveStage pkg \<noteq> []"

abbreviation newline :: char where
  "newline \<equiv> CHR 0x0A"

text \<open>The assignments \<^verbatim>\<open>m[k] = v\<close> of a list of pairs, in order.\<close>

definition assignAll :: "(string \<times> string) list \<Rightarrow> (string \<times> string) list \<Rightarrow> (string \<times> string) list" where
  "assignAll kvs m = fold (\<lambda>kv. AList.update (fst kv) (snd kv)) kvs m"

text \<open>The file operations and the exchanges among events; the name of a package's bundle.\<close>

definition fileEvents :: "event list \<Rightarrow> event list" where
  "fileEvents evs = filter (\<lambda>e. \<not> isExchange e) evs"

definition exchanges :: "event list \<Rightarrow> event list" where
  "exchanges evs = filter isExchange evs"

abbreviation bundleName :: "package \<Rightarrow> string" where
  "bundleName pkg \<equiv> PathEscape (pkgName pkg) @ ''.json''"

text \<open>The entries of a stage listing that are fetched, from the response that lists them.\<close>

definition wantedOf :: "environment \<Rightarrow> response \<Rightarrow> file_entry list" where
  "wantedOf env resp =
     filter wantedFile
       (case answer (OutJSON (decodeFiles env)) resp of Inl e \<Rightarrow> [] | Inr files \<Rightarrow> jsonOr [] files)"

text \<open>
  A run that a returned response with another status than 200 has ended: that exchange
  is the last event, no earlier returned response had such a status, standard error ends with its body and
  the message of \<^verbatim>\<open>badHttpStatus\<close>, and the package in progress has touched no file.
\<close>

definition badEnd :: "world \<Rightarrow> bool" where
  "badEnd w =
     (\<exists>pre q c b rerr s.
        events w = pre @ [Exchange q (Response c b rerr)] \<and> c \<noteq> 200 \<and>
        \<not> list_ex badStatus pre \<and>
        stderr w = s @ b @ ''HTTP '' @ itoa c @ [newline] \<and>
        list_all isExchange (sinceLastStages (events w)))"

text \<open>
  The checks of \<^verbatim>\<open>main\<close> before the first request all pass, and the world \<^verbatim>\<open>main\<close>
  has built by then: the URL, the header map and the request template, at the addresses
  0, 1 and 2.
\<close>

definition configured :: "cmdline \<Rightarrow> environment \<Rightarrow> bool" where
  "configured cl env =
     (flagString (host_flag cl) [] \<noteq> [] \<and> flagString (port_flag cl) ''5665'' \<noteq> [] \<and>
      flagString (ca_flag cl) [] \<noteq> [] \<and> flagString (cn_flag cl) [] \<noteq> [] \<and>
      flagString (user_flag cl) [] \<noteq> [] \<and> getenv env ''I2_PASS'' \<noteq> [] \<and>
      (case readFile env (flagString (ca_flag cl) []) of
         Inl errRF \<Rightarrow> False
       | Inr pem \<Rightarrow> appendCertsFromPEM env pem))"

definition template :: "cmdline \<Rightarrow> environment \<Rightarrow> world" where
  "template cl env =
     (case newURL \<lparr>Scheme = ''https'',
                   Host = flagString (host_flag cl) [] @ '':'' @ flagString (port_flag cl) ''5665'',
                   Path = []\<rparr> world0 of (u, w) \<Rightarrow>
      case newHeader [] w of (h, w) \<Rightarrow>
      case newRequest \<lparr>Method = [], URLptr = u, Headerptr = h, Body = None\<rparr> w of (req, w) \<Rightarrow>
      SetBasicAuth env req (flagString (user_flag cl) []) (getenv env ''I2_PASS'') w)"

text \<open>A string between double quotes.\<close>

definition quoted :: "bytes \<Rightarrow> bytes" where
  "quoted s = dquote # s @ [dquote]"


subsection \<open>A server to run the program against\<close>

text \<open>
  An environment for the concrete runs below: the server answers the requests with the
  responses of a script, in order, none with a \<^verbatim>\<open>Location\<close>; the decoders know the
  bodies of a table (the body \<^verbatim>\<open>packages\<close> stands for the JSON text of
  \<open>demoPackages\<close>, and so on); the CA file is there, the file system never fails,
  \<open>base64\<close> is left as the identity, and the encoder is the original one.
\<close>

definition scripted :: "response list \<Rightarrow> event list \<Rightarrow> wire \<Rightarrow> response" where
  "scripted rs evs q =
     (if length (filter isExchange evs) < length rs then rs ! length (filter isExchange evs)
      else TransportError ''connection refused'')"

definition decodeTable :: "(bytes \<times> 'a) list \<Rightarrow> bytes \<Rightarrow> string option \<Rightarrow> string + 'a" where
  "decodeTable tbl b rerr =
     (case rerr of
        Some e \<Rightarrow> Inl e
      | None \<Rightarrow> (case map_of tbl b of Some v \<Rightarrow> Inr v | None \<Rightarrow> Inl ''invalid character''))"

definition demoPackages :: "package list" where
  "demoPackages =
     [\<lparr>pkgName = ''my pkg'', pkgActiveStage = ''s1''\<rparr>,
      \<lparr>pkgName = [], pkgActiveStage = ''s2''\<rparr>,
      \<lparr>pkgName = ''etc'', pkgActiveStage = ''s3''\<rparr>]"

definition demoListing :: "file_entry list" where
  "demoListing =
     [\<lparr>fileName = ''sub/dir/file.conf'', fileType = ''file''\<rparr>,
      \<lparr>fileName = ''a'', fileType = ''file''\<rparr>,
      \<lparr>fileName = ''dir/b'', fileType = ''directory''\<rparr>,
      \<lparr>fileName = ''sub/dir/file.conf'', fileType = ''file''\<rparr>]"

definition demoEnv :: "response list \<Rightarrow> environment" where
  "demoEnv rs =
     \<lparr>getenv = (\<lambda>v. if v = ''I2_PASS'' then ''secret'' else []),
      readFile = (\<lambda>p. if p = ''ca.pem'' then Inr ''-----BEGIN CERTIFICATE-----'' else Inl ''no such file''),
      appendCertsFromPEM = (\<lambda>pem. pem \<noteq> []),
      base64 = (\<lambda>s. s),
      roundTrip = (\<lambda>evs reds q. (scripted rs evs q, [])),
      redirectTo = (\<lambda>ireq req loc. Inr ((wURL req)\<lparr>Path := loc\<rparr>, wHeader ireq)),
      stopped = (\<lambda>req loc. ''stopped after 10 redirects''),
      invalidUTF8 = Escaped,
      decodePackages = decodeTable [(''packages'', demoPackages)],
      decodeFiles = decodeTable
        [(''listing'', demoListing), (''nothing'', []),
         (''spaces'', [\<lparr>fileName = ''conf.d/a b?.conf'', fileType = ''file''\<rparr>])],
      osCreate = (\<lambda>evs f. None),
      fileWrite = (\<lambda>evs f buf. WriteOk),
      fileClose = (\<lambda>evs f. None)\<rparr>"


text \<open>
  A server that redirects: each response of the script comes with its \<^verbatim>\<open>Location\<close>;
  the responses are counted over all round trips, those of followed redirects included.
  The client resolves a \<^verbatim>\<open>Location\<close> by taking it as the path.
\<close>

definition scriptedL :: "(response \<times> string) list \<Rightarrow> event list \<Rightarrow> redirect list \<Rightarrow> wire \<Rightarrow> response \<times> string" where
  "scriptedL rs evs reds q =
     (if length (filter isExchange evs) + length reds < length rs
      then rs ! (length (filter isExchange evs) + length reds)
      else (TransportError ''connection refused'', []))"

definition redirectingEnv :: "(response \<times> string) list \<Rightarrow> environment" where
  "redirectingEnv rs = (demoEnv [])\<lparr>roundTrip := scriptedL rs\<rparr>"

text \<open>A followed redirect, read: the path of the request, the status, the \<^verbatim>\<open>Location\<close>.\<close>

definition hop :: "redirect \<Rightarrow> string \<times> int \<times> string" where
  "hop r = (case r of Redirect q c loc \<Rightarrow> (Path (wURL q), c, loc))"

definition demoCmd :: cmdline where
  "demoCmd = \<lparr>host_flag = Some ''icinga'', port_flag = None, ca_flag = Some ''ca.pem'',
              cn_flag = Some ''icinga'', user_flag = Some ''root''\<rparr>"

definition demoPkg :: package where
  "demoPkg = \<lparr>pkgName = ''my pkg'', pkgActiveStage = ''s1''\<rparr>"

definition demoWorld :: world where
  "demoWorld = template demoCmd (demoEnv [])"

section \<open>Properties\<close>

lemma clientDo_eq:
  "clientDo env q w = (returned env w q, w\<lparr>redirects := followed env w q\<rparr>)"
  by (simp add: clientDo_def returned_def followed_def split: prod.splits)

lemma doRequest_eq:
  "doRequest env a out w =
     (answer out (returned env w (onWire a w)),
      w\<lparr>redirects := followed env w (onWire a w),
        events := events w @ [Exchange (onWire a w) (returned env w (onWire a w))],
        stderr := stderr w @ echoed (returned env w (onWire a w))\<rparr>)"
  by (simp add: doRequest_def clientDo_eq onWire_def answer_def echoed_def Let_def
      split: response.splits out.splits option.splits sum.splits)

lemma returned_cong:
  "events w' = events w \<Longrightarrow> redirects w' = redirects w \<Longrightarrow> returned env w' q = returned env w q"
  by (simp add: returned_def)

lemma followed_cong:
  "events w' = events w \<Longrightarrow> redirects w' = redirects w \<Longrightarrow> followed env w' q = followed env w q"
  by (simp add: followed_def)

lemma sendReq_None:
  "sendReq env base m uri None out w =
     (answer out (returned env w (wireFor w base m uri)), sent env base m uri w)"
  by (simp add: sent_def sendReq_def doRequest_eq newRequest_def newURL_def setMethod_def setURL_def setPath_def
      onWire_def wireFor_def Let_def returned_def followed_def)

lemma events_sent:
  "events (sent env base m uri w) =
     events w @ [Exchange (wireFor w base m uri) (returned env w (wireFor w base m uri))]"
  by (simp add: sent_def sendReq_def doRequest_eq newRequest_def newURL_def setMethod_def setURL_def setPath_def
      onWire_def wireFor_def Let_def returned_def followed_def)

lemma stderr_sent:
  "stderr (sent env base m uri w) = stderr w @ echoed (returned env w (wireFor w base m uri))"
  by (simp add: sent_def sendReq_def doRequest_eq newRequest_def newURL_def setMethod_def setURL_def setPath_def
      onWire_def wireFor_def Let_def returned_def followed_def)

lemma redirects_sent:
  "redirects (sent env base m uri w) = followed env w (wireFor w base m uri)"
  by (simp add: sent_def sendReq_def doRequest_eq newRequest_def newURL_def setMethod_def setURL_def setPath_def
      onWire_def wireFor_def Let_def returned_def followed_def)

text \<open>A response that is no redirect, or has no \<^verbatim>\<open>Location\<close>, is what \<^verbatim>\<open>client.Do\<close> returns.\<close>

lemma do_loop_direct:
  "roundTrip env evs reds q = (Response c b rerr, loc) \<Longrightarrow>
     c \<notin> {301, 302, 303, 307, 308} \<or> loc = [] \<Longrightarrow>
     do_loop env evs ireq q reds n = (Response c b rerr, reds)"
  by (auto simp add: do_loop.simps redirectBehavior_def split: option.splits)

lemma do_loop_error:
  "roundTrip env evs reds q = (TransportError e, loc) \<Longrightarrow>
     do_loop env evs ireq q reds n = (TransportError e, reds)"
  by (simp add: do_loop.simps)

lemma Path_wireFor: "Path (wURL (wireFor w base m uri)) = uri"
  by (simp add: wireFor_def)

lemma wMethod_wireFor: "wMethod (wireFor w base m uri) = m"
  by (simp add: wireFor_def)

lemma answer_bytes_Inr:
  "answer (OutBytes :: unit out) resp = Inr g \<Longrightarrow> \<exists>b. resp = Response 200 b None \<and> g = GotBytes b"
  by (auto simp: answer_def split: response.splits if_splits option.splits)

lemma answer_Inr_ok: "answer out resp = Inr g \<Longrightarrow> echoed resp = [] \<and> \<not> badStatus (Exchange q resp)"
  by (auto simp: answer_def echoed_def split: response.splits if_splits)

lemma answer_bad: "badStatus (Exchange q resp) \<Longrightarrow> \<exists>c b rerr. resp = Response c b rerr \<and> c \<noteq> 200 \<and>
    answer out resp = Inl (badHttpStatus c) \<and> echoed resp = b"
  by (cases resp) (auto simp: answer_def echoed_def)

lemma fetched_not_bad: "fetched e \<Longrightarrow> \<not> badStatus e \<and> isExchange e"
  by (cases e rule: fetched.cases) auto

lemma Contains_slash: "Contains s ''/'' \<longleftrightarrow> CHR ''/'' \<in> set s"
  by (induction s) auto

text \<open>The loop over the files, when it ends.\<close>

lemma filesLoop_Inr:
  "filesLoop env req pkg files up w = (Inr m, w') \<Longrightarrow>
     \<exists>evs. events w' = events w @ evs \<and> list_all fetched evs \<and>
       map pathOf evs = map (filesPath pkg) (filter wantedFile files) \<and>
       m = assignAll (zip (map fileName (filter wantedFile files)) (map bodyOf evs)) up \<and>
       stderr w' = stderr w"
proof (induction files arbitrary: up w)
  case Nil
  then show ?case by (simp add: assignAll_def)
next
  case (Cons f rest)
  show ?case
  proof (cases "wantedFile f")
    case False
    with Cons.prems have "filesLoop env req pkg rest up w = (Inr m, w')" by auto
    from Cons.IH [OF this] False show ?thesis by auto
  next
    case True
    define resp where "resp = returned env w (wireFor w req ''GET'' (filesPath pkg f))"
    define w1 where "w1 = sent env req ''GET'' (filesPath pkg f) w"
    have s: "sendReq env req ''GET'' (filesPath pkg f) None (OutBytes :: unit out) w = (answer OutBytes resp, w1)"
      by (simp add: sendReq_None resp_def w1_def)
    from Cons.prems True s obtain g where g: "answer (OutBytes :: unit out) resp = Inr g"
      and rest: "filesLoop env req pkg rest (AList.update (fileName f) (bytesOr [] g) up) w1 = (Inr m, w')"
      by (cases "answer (OutBytes :: unit out) resp") (auto simp: exitWith_def)
    from answer_bytes_Inr [OF g] obtain b where b: "resp = Response 200 b None" "g = GotBytes b"
      by auto
    from Cons.IH [OF rest] obtain evs where
      evs: "events w' = events w1 @ evs" "list_all fetched evs"
        "map pathOf evs = map (filesPath pkg) (filter wantedFile rest)"
        "m = assignAll (zip (map fileName (filter wantedFile rest)) (map bodyOf evs)) (AList.update (fileName f) (bytesOr [] g) up)"
        "stderr w' = stderr w1"
      by blast
    let ?x = "Exchange (wireFor w req ''GET'' (filesPath pkg f)) resp"
    have ev1: "events w1 = events w @ [?x]" by (simp add: w1_def events_sent resp_def)
    have err1: "stderr w1 = stderr w @ echoed resp" by (simp add: w1_def stderr_sent resp_def)
    have "events w' = events w @ (?x # evs)" using evs ev1 by simp
    moreover have "list_all fetched (?x # evs)" using evs b by simp
    moreover have "map pathOf (?x # evs) = map (filesPath pkg) (filter wantedFile (f # rest))"
      using evs True by (simp add: Path_wireFor)
    moreover have "m = assignAll (zip (map fileName (filter wantedFile (f # rest))) (map bodyOf (?x # evs))) up"
      using evs b True by (simp add: assignAll_def)
    moreover have "stderr w' = stderr w" using evs err1 b by (simp add: echoed_def)
    ultimately show ?thesis by blast
  qed
qed

text \<open>The loop over the files, when a fetch fails.\<close>

lemma filesLoop_Inl:
  "filesLoop env req pkg files up w = (Inl code, w') \<Longrightarrow>
     code = 1 \<and>
     (\<exists>evs q resp e. events w' = events w @ evs @ [Exchange q resp] \<and> list_all fetched evs \<and>
       map pathOf (evs @ [Exchange q resp]) = map (filesPath pkg) (take (Suc (length evs)) (filter wantedFile files)) \<and>
       answer (OutBytes :: unit out) resp = Inl e \<and>
       stderr w' = stderr w @ echoed resp @ Error e @ [newline])"
proof (induction files arbitrary: up w)
  case Nil
  then show ?case by simp
next
  case (Cons f rest)
  show ?case
  proof (cases "wantedFile f")
    case False
    with Cons.prems have "filesLoop env req pkg rest up w = (Inl code, w')" by auto
    from Cons.IH [OF this] False show ?thesis by auto
  next
    case True
    define resp where "resp = returned env w (wireFor w req ''GET'' (filesPath pkg f))"
    define w1 where "w1 = sent env req ''GET'' (filesPath pkg f) w"
    let ?x = "Exchange (wireFor w req ''GET'' (filesPath pkg f)) resp"
    have s: "sendReq env req ''GET'' (filesPath pkg f) None (OutBytes :: unit out) w = (answer OutBytes resp, w1)"
      by (simp add: sendReq_None resp_def w1_def)
    have ev1: "events w1 = events w @ [?x]" by (simp add: w1_def events_sent resp_def)
    have err1: "stderr w1 = stderr w @ echoed resp" by (simp add: w1_def stderr_sent resp_def)
    show ?thesis
    proof (cases "answer (OutBytes :: unit out) resp")
      case (Inl e)
      with Cons.prems True s have "code = 1" and w': "w' = Fprintln (Error e) w1"
        by (auto simp: exitWith_def)
      have "events w' = events w @ [] @ [?x]" using w' ev1 by (simp add: Fprintln_def)
      moreover have "map pathOf ([] @ [?x]) = map (filesPath pkg) (take (Suc (length ([]::event list))) (filter wantedFile (f # rest)))"
        using True by (simp add: Path_wireFor)
      moreover have "stderr w' = stderr w @ echoed resp @ Error e @ [newline]"
        using w' err1 by (simp add: Fprintln_def)
      moreover have "list_all fetched ([] :: event list)" by simp
      ultimately show ?thesis using Inl \<open>code = 1\<close> by blast
    next
      case (Inr g)
      with Cons.prems True s have
        rest: "filesLoop env req pkg rest (AList.update (fileName f) (bytesOr [] g) up) w1 = (Inl code, w')"
        by auto
      from answer_bytes_Inr [OF Inr] obtain b where b: "resp = Response 200 b None" by auto
      from Cons.IH [OF rest] obtain evs q' resp' e where code: "code = 1" and
        evs: "events w' = events w1 @ evs @ [Exchange q' resp']" "list_all fetched evs"
          "map pathOf (evs @ [Exchange q' resp']) = map (filesPath pkg) (take (Suc (length evs)) (filter wantedFile rest))"
          "answer (OutBytes :: unit out) resp' = Inl e"
          "stderr w' = stderr w1 @ echoed resp' @ Error e @ [newline]"
        by blast
      have "events w' = events w @ (?x # evs) @ [Exchange q' resp']" using evs ev1 by simp
      moreover have "list_all fetched (?x # evs)" using evs b by simp
      moreover have "map pathOf ((?x # evs) @ [Exchange q' resp']) =
          map (filesPath pkg) (take (Suc (length (?x # evs))) (filter wantedFile (f # rest)))"
        using evs True by (simp add: Path_wireFor)
      moreover have "stderr w' = stderr w @ echoed resp' @ Error e @ [newline]"
        using evs err1 b by (simp add: echoed_def)
      ultimately show ?thesis using code evs(4) by blast
    qed
  qed
qed



subsection \<open>The map of a package\<close>

lemma assignAll_Cons: "assignAll (kv # kvs) m = assignAll kvs (AList.update (fst kv) (snd kv) m)"
  by (simp add: assignAll_def)

lemma assignAll_Nil: "assignAll [] m = m"
  by (simp add: assignAll_def)

lemma map_of_assignAll: "map_of (assignAll kvs m) = map_of m ++ map_of (rev kvs)"
proof (induction kvs arbitrary: m)
  case Nil
  show ?case by (simp add: assignAll_Nil)
next
  case (Cons kv kvs)
  have "map_of (assignAll (kv # kvs) m) = map_of (AList.update (fst kv) (snd kv) m) ++ map_of (rev kvs)"
    by (simp add: assignAll_Cons Cons.IH)
  also have "\<dots> = map_of m ++ map_of (rev (kv # kvs))"
    by (cases kv) (simp add: update_conv' map_add_def fun_eq_iff split: option.splits)
  finally show ?case .
qed

lemma keys_assignAll: "fst ` set (assignAll kvs m) = fst ` set kvs \<union> fst ` set m"
  by (induction kvs arbitrary: m) (auto simp: assignAll_Nil assignAll_Cons dom_update)

lemma distinct_assignAll: "distinct (map fst m) \<Longrightarrow> distinct (map fst (assignAll kvs m))"
  by (induction kvs arbitrary: m) (auto simp: assignAll_Nil assignAll_Cons distinct_update)

lemma assignAll_empty_iff: "assignAll kvs m = [] \<longleftrightarrow> kvs = [] \<and> m = []"
proof -
  have "set (assignAll kvs m) = {} \<longleftrightarrow> fst ` set (assignAll kvs m) = {}" by simp
  then show ?thesis by (simp only: keys_assignAll set_empty [symmetric]) auto
qed

lemma keys_zip: "length xs = length ys \<Longrightarrow> fst ` set (zip xs ys) = set xs"
  by (metis map_fst_zip set_map)

lemma last_assignment:
  "length ns = length bs \<Longrightarrow> i < length ns \<Longrightarrow> (\<forall>j. i < j \<and> j < length ns \<longrightarrow> ns ! j \<noteq> ns ! i) \<Longrightarrow>
     map_of (assignAll (zip ns bs) m) (ns ! i) = Some (bs ! i)"
proof (induction ns bs arbitrary: m i rule: list_induct2)
  case Nil
  then show ?case by simp
next
  case (Cons n ns b bs)
  show ?case
  proof (cases i)
    case 0
    have "n \<notin> set ns"
    proof
      assume "n \<in> set ns"
      then obtain k where "k < length ns" "ns ! k = n" by (auto simp: in_set_conv_nth)
      with Cons.prems(2) [rule_format, of "Suc k"] 0 show False by simp
    qed
    then have "n \<notin> fst ` set (rev (zip ns bs))" by (auto dest: set_zip_leftD)
    then have "map_of (rev (zip ns bs)) n = None" by (simp add: map_of_eq_None_iff)
    then show ?thesis using 0
      by (simp add: assignAll_Cons map_of_assignAll map_add_def update_conv')
  next
    case (Suc i')
    have "\<forall>j. i' < j \<and> j < length ns \<longrightarrow> ns ! j \<noteq> ns ! i'"
    proof (intro allI impI)
      fix j assume "i' < j \<and> j < length ns"
      with Cons.prems(2) [rule_format, of "Suc j"] Suc show "ns ! j \<noteq> ns ! i'" by simp
    qed
    with Cons.IH [of i' "AList.update n b m"] Cons.prems(1) Suc show ?thesis
      by (simp add: assignAll_Cons)
  qed
qed

subsection \<open>The start of a run, and the concrete environment\<close>

lemma demoEnv_fields:
  "getenv (demoEnv rs) ''I2_PASS'' = ''secret''"
  "readFile (demoEnv rs) ''ca.pem'' = Inr ''-----BEGIN CERTIFICATE-----''"
  "appendCertsFromPEM (demoEnv rs) ''-----BEGIN CERTIFICATE-----''"
  "roundTrip (demoEnv rs) evs reds q = (scripted rs evs q, [])"
  "decodePackages (demoEnv rs) = decodeTable [(''packages'', demoPackages)]"
  "decodeFiles (demoEnv rs) = decodeTable
     [(''listing'', demoListing), (''nothing'', []),
      (''spaces'', [\<lparr>fileName = ''conf.d/a b?.conf'', fileType = ''file''\<rparr>])]"
  "osCreate (demoEnv rs) evs f = None"
  "fileWrite (demoEnv rs) evs f buf = WriteOk"
  "fileClose (demoEnv rs) evs f = None"
  "invalidUTF8 (demoEnv rs) = Escaped"
  by (simp_all add: demoEnv_def)

lemma returned_demo: "returned (demoEnv rs) w q = scripted rs (events w) q"
proof (cases "scripted rs (events w) q")
  case (TransportError e)
  then have "roundTrip (demoEnv rs) (events w) (redirects w) q = (TransportError e, [])"
    by (simp add: demoEnv_fields)
  from do_loop_error [OF this] TransportError show ?thesis by (simp add: returned_def)
next
  case (Response c b rerr)
  then have "roundTrip (demoEnv rs) (events w) (redirects w) q = (Response c b rerr, [])"
    by (simp add: demoEnv_fields)
  from do_loop_direct [OF this] Response show ?thesis by (simp add: returned_def)
qed

lemmas demoEnv_simps = demoEnv_fields returned_demo

lemma events_template: "events (template cl env) = []"
  by (simp add: template_def newURL_def newHeader_def newRequest_def SetBasicAuth_def world0_def)

lemma stderr_template: "stderr (template cl env) = []"
  by (simp add: template_def newURL_def newHeader_def newRequest_def SetBasicAuth_def world0_def)

lemma main_configured:
  "configured cl env \<Longrightarrow>
     main cl env =
       (case sendReq env 2 ''GET'' ''/v1/config/packages'' None (OutJSON (decodePackages env)) (template cl env) of
          (Inl errSR, w) \<Rightarrow> (1, Fprintln (Error errSR) w)
        | (Inr packages, w) \<Rightarrow>
            (case pkgsLoop env 2 (jsonOr [] packages) w of
               (Inl code, w) \<Rightarrow> (code, w)
             | (Inr _, w) \<Rightarrow> (0, w)))"
proof -
  assume c: "configured cl env"
  define W1 where "W1 = (\<lambda>u. snd (newURL u world0))"
  define W2 where "W2 = (\<lambda>u. snd (newHeader [] (W1 u)))"
  define W3 where "W3 = (\<lambda>u. snd (newRequest \<lparr>Method = [], URLptr = 0, Headerptr = Suc 0, Body = None\<rparr> (W2 u)))"
  have n1: "newURL u world0 = (0, W1 u)" for u
    by (simp add: W1_def newURL_def world0_def)
  have n2: "newHeader [] (W1 u) = (1, W2 u)" for u
    by (simp add: W2_def W1_def newHeader_def newURL_def world0_def)
  have n3: "newRequest \<lparr>Method = [], URLptr = 0, Headerptr = Suc 0, Body = None\<rparr> (W2 u) = (2, W3 u)" for u
    by (simp add: W3_def W2_def W1_def newRequest_def newHeader_def newURL_def world0_def)
  from c obtain pem where pem: "readFile env (flagString (ca_flag cl) []) = Inr pem" "appendCertsFromPEM env pem"
    by (auto simp: configured_def split: sum.splits)
  from c pem show ?thesis
    by (simp add: configured_def main_def template_def Let_def n1 n2 n3)
qed

lemma main_not_configured:
  "\<not> configured cl env \<Longrightarrow> events (snd (main cl env)) = [] \<and> (fst (main cl env) = 1 \<or> fst (main cl env) = 2)"
  by (auto simp add: configured_def main_def Let_def Fprintln_def world0_def split: sum.splits)

lemma configured_demo: "configured demoCmd (demoEnv rs)"
  by (simp add: configured_def demoCmd_def flagString_def demoEnv_simps)


lemma events_demoWorld: "events demoWorld = []"
  by (simp add: demoWorld_def events_template)

lemma PathEscape_my_pkg: "PathEscape ''my pkg'' = ''my%20pkg''"
  by (simp add: PathEscape_def escapeByte_def shouldEscape_def isAlnum_def upperhex_def)

lemma PathEscape_s1: "PathEscape ''s1'' = ''s1''"
  by (simp add: PathEscape_def escapeByte_def shouldEscape_def isAlnum_def upperhex_def)

text \<open>The loop over \<open>demoListing\<close>, the server answering the two fetches.\<close>

lemma demo_fetch:
  assumes "events w = []"
  shows "fst (filesLoop (demoEnv [Response 200 ''old'' None, Response 200 ''new'' None]) 2 demoPkg demoListing [] w)
           = Inr [(''sub/dir/file.conf'', ''new'')]"
    and "map pathOf (events (snd (filesLoop (demoEnv [Response 200 ''old'' None, Response 200 ''new'' None]) 2 demoPkg demoListing [] w)))
           = [''/v1/config/files/my%20pkg/s1/sub/dir/file.conf'', ''/v1/config/files/my%20pkg/s1/sub/dir/file.conf'']"
    and "map bodyOf (events (snd (filesLoop (demoEnv [Response 200 ''old'' None, Response 200 ''new'' None]) 2 demoPkg demoListing [] w)))
           = [''old'', ''new'']"
  using assms
  by (simp_all add: demoListing_def demoPkg_def sendReq_None events_sent demoEnv_simps scripted_def answer_def
      Path_wireFor PathEscape_my_pkg PathEscape_s1)

subsection \<open>Writing the bundle\<close>

lemma writeBundle_empty: "writeBundle env pkg [] w = (Inr (), w)"
  by (simp add: writeBundle_def)

lemma writeBundle_events:
  "writeBundle env pkg up w = (r, w') \<Longrightarrow>
     \<exists>fevs. events w' = events w @ fevs \<and> list_all (\<lambda>e. \<not> isExchange e) fevs \<and> (\<forall>c. r = Inl c \<longrightarrow> c = 1)"
  by (auto simp add: writeBundle_def Let_def exitWith_def Fprintln_def
      split: if_splits option.splits write_result.splits)


lemma writeBundle_created:
  "writeBundle env pkg up w = (r, w') \<Longrightarrow> up \<noteq> [] \<Longrightarrow> osCreate env (events w) (bundleName pkg) = None \<Longrightarrow>
     \<exists>evs. events w' = events w @ Created (bundleName pkg) # evs"
  by (auto simp add: writeBundle_def Let_def exitWith_def Fprintln_def
      split: if_splits option.splits write_result.splits)
















subsection \<open>The events of a package, of the loop over the packages and of a run\<close>

lemma sinceLastStages_append:
  "isStages x \<Longrightarrow> \<not> list_ex isStages ys \<Longrightarrow> sinceLastStages (xs @ x # ys) = x # ys"
  by (induction xs) (auto simp: list_ex_iff)

lemma sinceLastStages_none: "\<not> list_ex isStages xs \<Longrightarrow> sinceLastStages xs = xs"
  by (cases xs) auto

lemma files_not_stages: "pathOf e = filesPath pkg f \<Longrightarrow> \<not> isStages e"
  by (simp add: isStages_def)

lemma fetches_not_stages:
  assumes "map pathOf evs = map (filesPath pkg) fs"
  shows "\<not> list_ex isStages evs"
proof -
  have "\<not> isStages e" if "e \<in> set evs" for e
  proof -
    from that have "pathOf e \<in> set (map pathOf evs)" by simp
    then obtain f where "pathOf e = filesPath pkg f" unfolding assms by auto
    then show ?thesis by (rule files_not_stages)
  qed
  then show ?thesis by (auto simp: list_ex_iff)
qed

lemma fileEvents_not_stages: "list_all (\<lambda>e. \<not> isExchange e) fevs \<Longrightarrow> \<not> list_ex isStages fevs"
  by (auto simp: list_ex_iff list_all_iff isStages_def)

lemma fetched_all_exchanges: "list_all fetched evs \<Longrightarrow> list_all isExchange evs \<and> \<not> list_ex badStatus evs"
  by (auto simp: list_ex_iff list_all_iff fetched_not_bad)

text \<open>What one package adds to the events.\<close>

lemma exportPkg_shape:
  assumes "exportPkg env req pkg w = (r, w')"
  shows "\<exists>q resp evs fevs k.
           events w' = events w @ Exchange q resp # evs @ fevs \<and>
           Path (wURL q) = stagesPath pkg \<and> wMethod q = ''GET'' \<and>
           resp = returned env w q \<and>
           list_all isExchange evs \<and> list_all (\<lambda>e. \<not> isExchange e) fevs \<and>
           map pathOf evs = map (filesPath pkg) (take k (wantedOf env resp)) \<and>
           (r = Inr () \<longrightarrow> length (wantedOf env resp) \<le> k)"
proof -
  define q where "q = wireFor w req ''GET'' (stagesPath pkg)"
  define resp where "resp = returned env w q"
  define w1 where "w1 = sent env req ''GET'' (stagesPath pkg) w"
  have s: "sendReq env req ''GET'' (stagesPath pkg) None (OutJSON (decodeFiles env)) w
             = (answer (OutJSON (decodeFiles env)) resp, w1)"
    by (simp add: sendReq_None resp_def w1_def q_def)
  have ev1: "events w1 = events w @ [Exchange q resp]"
    by (simp add: w1_def events_sent resp_def q_def)
  have q: "Path (wURL q) = stagesPath pkg" "wMethod q = ''GET''"
    by (simp_all add: q_def Path_wireFor wMethod_wireFor)
  show ?thesis
  proof (cases "answer (OutJSON (decodeFiles env)) resp")
    case (Inl e)
    with assms s have "w' = Fprintln (Error e) w1"
      by (simp add: exportPkg_def exitWith_def)
    then have "events w' = events w @ Exchange q resp # [] @ []"
      using ev1 by (simp add: Fprintln_def)
    moreover have "map pathOf [] = map (filesPath pkg) (take 0 (wantedOf env resp))" by simp
    moreover have "r \<noteq> Inr ()" using assms s Inl by (auto simp add: exportPkg_def exitWith_def)
    moreover have "list_all isExchange []" "list_all (\<lambda>e. \<not> isExchange e) []" by simp_all
    ultimately show ?thesis using q resp_def by blast
  next
    case (Inr g)
    have wo: "wantedOf env resp = filter wantedFile (jsonOr [] g)"
      by (simp add: wantedOf_def Inr)
    obtain r1 w2 where fl: "filesLoop env req pkg (jsonOr [] g) [] w1 = (r1, w2)"
      by (cases "filesLoop env req pkg (jsonOr [] g) [] w1")
    show ?thesis
    proof (cases r1)
      case (Inl code)
      with assms s Inr fl have w': "w' = w2" and r: "r = Inl code"
        by (simp_all add: exportPkg_def)
      from filesLoop_Inl [OF fl [unfolded Inl]] obtain evs q' resp' where
        evs: "events w2 = events w1 @ evs @ [Exchange q' resp']" "list_all fetched evs"
          "map pathOf (evs @ [Exchange q' resp']) =
             map (filesPath pkg) (take (Suc (length evs)) (filter wantedFile (jsonOr [] g)))"
        by blast
      have "events w' = events w @ Exchange q resp # (evs @ [Exchange q' resp']) @ []"
        using evs(1) ev1 w' by simp
      moreover have "list_all isExchange (evs @ [Exchange q' resp'])"
        using evs(2) fetched_all_exchanges by simp
      moreover have "list_all (\<lambda>e. \<not> isExchange e) []" by simp
      moreover have "map pathOf (evs @ [Exchange q' resp']) =
             map (filesPath pkg) (take (Suc (length evs)) (wantedOf env resp))"
        using evs(3) wo by simp
      moreover have "r \<noteq> Inr ()" using r by simp
      ultimately show ?thesis using q resp_def by blast
    next
      case (Inr up)
      with assms s \<open>answer (OutJSON (decodeFiles env)) resp = Inr g\<close> fl
      have wb: "writeBundle env pkg up w2 = (r, w')"
        by (simp add: exportPkg_def)
      from filesLoop_Inr [OF fl [unfolded Inr]] obtain evs where
        evs: "events w2 = events w1 @ evs" "list_all fetched evs"
          "map pathOf evs = map (filesPath pkg) (filter wantedFile (jsonOr [] g))"
        by blast
      from writeBundle_events [OF wb] obtain fevs where
        fevs: "events w' = events w2 @ fevs" "list_all (\<lambda>e. \<not> isExchange e) fevs"
        by blast
      have "events w' = events w @ Exchange q resp # evs @ fevs"
        using evs(1) fevs(1) ev1 by simp
      moreover have "list_all isExchange evs" using evs(2) fetched_all_exchanges by simp
      moreover have "map pathOf evs = map (filesPath pkg) (take (length (wantedOf env resp)) (wantedOf env resp))"
        using evs(3) wo by simp
      ultimately show ?thesis using q resp_def fevs(2) by blast
    qed
  qed
qed


lemma stages_isStages: "Path (wURL q) = stagesPath pkg \<Longrightarrow> isStages (Exchange q resp)"
  by (simp add: isStages_def)

lemma filter_isStages_none: "\<not> list_ex isStages evs \<Longrightarrow> filter isStages evs = []"
  by (auto simp: list_ex_iff filter_empty_conv)

lemma exportPkg_stages:
  assumes "exportPkg env req pkg w = (r, w')"
  shows "\<exists>evs. events w' = events w @ evs \<and> map pathOf (filter isStages evs) = [stagesPath pkg] \<and>
           (\<forall>c. r = Inl c \<longrightarrow> c = 1)"
proof -
  from exportPkg_shape [OF assms] obtain q resp evs fevs k where
    sh: "events w' = events w @ Exchange q resp # evs @ fevs" "Path (wURL q) = stagesPath pkg"
      "list_all (\<lambda>e. \<not> isExchange e) fevs"
      "map pathOf evs = map (filesPath pkg) (take k (wantedOf env resp))"
    by blast
  have "filter isStages (Exchange q resp # evs @ fevs) = [Exchange q resp]"
    using stages_isStages [OF sh(2)] fetches_not_stages [OF sh(4)] fileEvents_not_stages [OF sh(3)]
    by (simp add: filter_isStages_none)
  then have "map pathOf (filter isStages (Exchange q resp # evs @ fevs)) = [stagesPath pkg]"
    using sh(2) by simp
  moreover have "\<forall>c. r = Inl c \<longrightarrow> c = 1"
  proof (intro allI impI)
    fix c assume "r = Inl c"
    with assms show "c = 1"
      by (auto simp add: exportPkg_def exitWith_def split: prod.splits sum.splits
          dest: filesLoop_Inl writeBundle_events)
  qed
  ultimately show ?thesis using sh(1)
    by (intro exI [of _ "Exchange q resp # evs @ fevs"] conjI) assumption+
qed

text \<open>The stage listings the loop over the packages asks for.\<close>

lemma pkgsLoop_stages:
  "pkgsLoop env req pkgs w = (r, w') \<Longrightarrow>
     \<exists>evs k. events w' = events w @ evs \<and> k \<le> length (filter wantedPkg pkgs) \<and>
        map pathOf (filter isStages evs) = map stagesPath (take k (filter wantedPkg pkgs)) \<and>
        (r = Inr () \<longrightarrow> k = length (filter wantedPkg pkgs)) \<and> (\<forall>c. r = Inl c \<longrightarrow> c = 1)"
proof (induction pkgs arbitrary: w)
  case Nil
  then show ?case by auto
next
  case (Cons pkg rest)
  show ?case
  proof (cases "wantedPkg pkg")
    case False
    with Cons.prems have "pkgsLoop env req rest w = (r, w')" by auto
    from Cons.IH [OF this] False show ?thesis by auto
  next
    case True
    obtain r1 w1 where ex: "exportPkg env req pkg w = (r1, w1)"
      by (cases "exportPkg env req pkg w")
    from exportPkg_stages [OF ex] obtain evs1 where
      evs1: "events w1 = events w @ evs1" "map pathOf (filter isStages evs1) = [stagesPath pkg]"
        "\<forall>c. r1 = Inl c \<longrightarrow> c = 1"
      by auto
    show ?thesis
    proof (cases r1)
      case (Inl c)
      with Cons.prems True ex have r: "r = Inl c" "w' = w1" by simp_all
      have "map pathOf (filter isStages evs1) = map stagesPath (take 1 (filter wantedPkg (pkg # rest)))"
        using evs1(2) True by simp
      moreover have "(1::nat) \<le> length (filter wantedPkg (pkg # rest))" using True by simp
      moreover have "r \<noteq> Inr ()" "\<forall>c. r = Inl c \<longrightarrow> c = 1" using r Inl evs1(3) by simp_all
      ultimately show ?thesis using evs1(1) r(2) by blast
    next
      case (Inr u)
      with Cons.prems True ex have rest: "pkgsLoop env req rest w1 = (r, w')" by simp
      from Cons.IH [OF rest] obtain evs k where
        evs: "events w' = events w1 @ evs" "k \<le> length (filter wantedPkg rest)"
          "map pathOf (filter isStages evs) = map stagesPath (take k (filter wantedPkg rest))"
          "r = Inr () \<longrightarrow> k = length (filter wantedPkg rest)" "\<forall>c. r = Inl c \<longrightarrow> c = 1"
        by blast
      have "events w' = events w @ (evs1 @ evs)" using evs(1) evs1(1) by simp
      moreover have "Suc k \<le> length (filter wantedPkg (pkg # rest))" using evs(2) True by simp
      moreover have "map pathOf (filter isStages (evs1 @ evs)) =
          map stagesPath (take (Suc k) (filter wantedPkg (pkg # rest)))"
        using evs(3) evs1(2) True by simp
      moreover have "r = Inr () \<longrightarrow> Suc k = length (filter wantedPkg (pkg # rest))"
        using evs(4) True by simp
      ultimately show ?thesis using evs(5) by blast
    qed
  qed
qed

text \<open>A run that got past the checks: the first request, then the loop over the packages.\<close>

lemma main_run:
  assumes "main cl env = (code, w)" and "events w \<noteq> []"
  shows "\<exists>q resp w1. events w1 = [Exchange q resp] \<and> Path (wURL q) = ''/v1/config/packages'' \<and>
           stderr w1 = echoed resp \<and>
           (case answer (OutJSON (decodePackages env)) resp of
              Inl e \<Rightarrow> code = 1 \<and> w = Fprintln (Error e) w1
            | Inr g \<Rightarrow> (\<exists>r. pkgsLoop env 2 (jsonOr [] g) w1 = (r, w) \<and>
                           code = (case r of Inl c \<Rightarrow> c | Inr u \<Rightarrow> 0)))"
proof -
  have c: "configured cl env"
    using assms main_not_configured [of cl env] by auto
  define q where "q = wireFor (template cl env) 2 ''GET'' ''/v1/config/packages''"
  define resp where "resp = returned env (template cl env) q"
  define w1 where "w1 = sent env 2 ''GET'' ''/v1/config/packages'' (template cl env)"
  have ev1: "events w1 = [Exchange q resp]"
    by (simp add: w1_def events_sent events_template resp_def q_def)
  have err1: "stderr w1 = echoed resp"
    by (simp add: w1_def stderr_sent stderr_template events_template resp_def q_def)
  have q: "Path (wURL q) = ''/v1/config/packages''" by (simp add: q_def Path_wireFor)
  have s: "sendReq env 2 ''GET'' ''/v1/config/packages'' None (OutJSON (decodePackages env)) (template cl env)
             = (answer (OutJSON (decodePackages env)) resp, w1)"
    by (simp add: sendReq_None resp_def w1_def q_def events_template)
  have "case answer (OutJSON (decodePackages env)) resp of
              Inl e \<Rightarrow> code = 1 \<and> w = Fprintln (Error e) w1
            | Inr g \<Rightarrow> (\<exists>r. pkgsLoop env 2 (jsonOr [] g) w1 = (r, w) \<and>
                           code = (case r of Inl c \<Rightarrow> c | Inr u \<Rightarrow> 0))"
    using assms(1) unfolding main_configured [OF c] s
    by (auto split: sum.splits prod.splits)
  with ev1 err1 q show ?thesis by blast
qed


text \<open>A response with a status other than 200: how a run ends on it.\<close>

lemma badEndI:
  assumes "events w' = pre @ [Exchange q resp]" and "badStatus (Exchange q resp)"
    and "\<not> list_ex badStatus pre" and "answer out resp = Inl e"
    and "stderr w' = s @ echoed resp @ Error e @ [newline]"
    and "list_all isExchange (sinceLastStages (events w'))"
  shows "badEnd w'"
proof -
  from answer_bad [OF assms(2), of out] obtain c b rerr where
    r: "resp = Response c b rerr" "c \<noteq> 200" "answer out resp = Inl (badHttpStatus c)" "echoed resp = b"
    by blast
  with assms(4) have "e = badHttpStatus c" by simp
  with assms(5) r(4) have "stderr w' = s @ b @ ''HTTP '' @ itoa c @ [newline]" by simp
  with assms(1,3,6) r(1,2) show ?thesis unfolding badEnd_def by blast
qed

lemma not_bad_append:
  "\<not> list_ex badStatus xs \<Longrightarrow> \<not> list_ex badStatus ys \<Longrightarrow> \<not> list_ex badStatus (xs @ ys)"
  by (auto simp add: list_ex_iff)

lemma fileEvents_not_bad: "list_all (\<lambda>e. \<not> isExchange e) fevs \<Longrightarrow> \<not> list_ex badStatus fevs"
proof -
  have "\<not> isExchange e \<Longrightarrow> \<not> badStatus e" for e by (cases e) auto
  then show "list_all (\<lambda>e. \<not> isExchange e) fevs \<Longrightarrow> \<not> list_ex badStatus fevs"
    by (auto simp: list_ex_iff list_all_iff)
qed

lemma exportPkg_bad:
  assumes nb: "\<not> list_ex badStatus (events w)" and ex: "exportPkg env req pkg w = (r, w')"
  shows "\<not> list_ex badStatus (events w') \<or> (r = Inl 1 \<and> badEnd w')"
proof -
  define q where "q = wireFor w req ''GET'' (stagesPath pkg)"
  define resp where "resp = returned env w q"
  define w1 where "w1 = sent env req ''GET'' (stagesPath pkg) w"
  have s: "sendReq env req ''GET'' (stagesPath pkg) None (OutJSON (decodeFiles env)) w
             = (answer (OutJSON (decodeFiles env)) resp, w1)"
    by (simp add: sendReq_None resp_def w1_def q_def)
  have ev1: "events w1 = events w @ [Exchange q resp]"
    by (simp add: w1_def events_sent resp_def q_def)
  have err1: "stderr w1 = stderr w @ echoed resp"
    by (simp add: w1_def stderr_sent resp_def q_def)
  have st: "isStages (Exchange q resp)"
    by (rule stages_isStages) (simp add: q_def Path_wireFor)
  show ?thesis
  proof (cases "answer (OutJSON (decodeFiles env)) resp")
    case (Inl e)
    with ex s have w': "w' = Fprintln (Error e) w1" and r: "r = Inl 1"
      by (simp_all add: exportPkg_def exitWith_def)
    have ev: "events w' = events w @ [Exchange q resp]" using w' ev1 by (simp add: Fprintln_def)
    have err: "stderr w' = stderr w @ echoed resp @ Error e @ [newline]"
      using w' err1 by (simp add: Fprintln_def)
    show ?thesis
    proof (cases "badStatus (Exchange q resp)")
      case True
      have "sinceLastStages (events w') = [Exchange q resp]"
        unfolding ev using st by (intro sinceLastStages_append) simp_all
      then have "list_all isExchange (sinceLastStages (events w'))" by simp
      from badEndI [OF ev True nb Inl err this] r show ?thesis by simp
    next
      case False
      with nb ev show ?thesis by (auto simp add: list_ex_iff)
    qed
  next
    case (Inr g)
    from answer_Inr_ok [OF Inr] have ok: "echoed resp = []" "\<not> badStatus (Exchange q resp)"
      by simp_all
    have nb1: "\<not> list_ex badStatus (events w1)" using nb ok(2) ev1 by (auto simp add: list_ex_iff)
    obtain r1 w2 where fl: "filesLoop env req pkg (jsonOr [] g) [] w1 = (r1, w2)"
      by (cases "filesLoop env req pkg (jsonOr [] g) [] w1")
    show ?thesis
    proof (cases r1)
      case (Inl code)
      with ex s Inr fl have w': "w' = w2" and r: "r = Inl code"
        by (simp_all add: exportPkg_def)
      from filesLoop_Inl [OF fl [unfolded Inl]] obtain evs q' resp' e where
        code: "code = 1" and
        evs: "events w2 = events w1 @ evs @ [Exchange q' resp']" "list_all fetched evs"
          "map pathOf (evs @ [Exchange q' resp']) =
             map (filesPath pkg) (take (Suc (length evs)) (filter wantedFile (jsonOr [] g)))"
          "answer (OutBytes :: unit out) resp' = Inl e"
          "stderr w2 = stderr w1 @ echoed resp' @ Error e @ [newline]"
        by blast
      have ev: "events w' = (events w @ Exchange q resp # evs) @ [Exchange q' resp']"
        using evs(1) ev1 w' by simp
      have nbp: "\<not> list_ex badStatus (events w @ Exchange q resp # evs)"
        using nb ok(2) evs(2) fetched_all_exchanges [of evs] by (auto simp add: list_ex_iff)
      show ?thesis
      proof (cases "badStatus (Exchange q' resp')")
        case True
        have "sinceLastStages (events w @ Exchange q resp # (evs @ [Exchange q' resp']))
                = Exchange q resp # (evs @ [Exchange q' resp'])"
          using st fetches_not_stages [OF evs(3)] by (rule sinceLastStages_append)
        moreover have "list_all isExchange (Exchange q resp # (evs @ [Exchange q' resp']))"
          using evs(2) fetched_all_exchanges [of evs] by simp
        ultimately have sl: "list_all isExchange (sinceLastStages (events w'))"
          using ev by simp
        have err: "stderr w' = stderr w @ echoed resp' @ Error e @ [newline]"
          using evs(5) err1 ok(1) w' by simp
        from badEndI [OF ev True nbp evs(4) err sl] r code show ?thesis by simp
      next
        case False
        with nbp ev show ?thesis by (auto simp add: list_ex_iff)
      qed
    next
      case (Inr up)
      with ex s \<open>answer (OutJSON (decodeFiles env)) resp = Inr g\<close> fl
      have wb: "writeBundle env pkg up w2 = (r, w')"
        by (simp add: exportPkg_def)
      from filesLoop_Inr [OF fl [unfolded Inr]] obtain evs where
        evs: "events w2 = events w1 @ evs" "list_all fetched evs"
        by blast
      from writeBundle_events [OF wb] obtain fevs where
        fevs: "events w' = events w2 @ fevs" "list_all (\<lambda>e. \<not> isExchange e) fevs"
        by blast
      have "\<not> list_ex badStatus (events w')"
        unfolding fevs(1) evs(1)
        using nb1 fetched_all_exchanges [OF evs(2)] fileEvents_not_bad [OF fevs(2)]
        by (auto simp add: list_ex_iff)
      then show ?thesis by simp
    qed
  qed
qed

lemma pkgsLoop_bad:
  "\<not> list_ex badStatus (events w) \<Longrightarrow> pkgsLoop env req pkgs w = (r, w') \<Longrightarrow>
     \<not> list_ex badStatus (events w') \<or> (r = Inl 1 \<and> badEnd w')"
proof (induction pkgs arbitrary: w)
  case Nil
  then show ?case by auto
next
  case (Cons pkg rest)
  show ?case
  proof (cases "wantedPkg pkg")
    case False
    with Cons.prems have "pkgsLoop env req rest w = (r, w')" by auto
    from Cons.IH [OF Cons.prems(1) this] show ?thesis .
  next
    case True
    obtain r1 w1 where ex: "exportPkg env req pkg w = (r1, w1)"
      by (cases "exportPkg env req pkg w")
    from exportPkg_bad [OF Cons.prems(1) ex]
    have a: "\<not> list_ex badStatus (events w1) \<or> (r1 = Inl 1 \<and> badEnd w1)" .
    show ?thesis
    proof (cases r1)
      case (Inl c)
      with Cons.prems(2) True ex have "r = Inl c" "w' = w1" by simp_all
      with a Inl show ?thesis by auto
    next
      case (Inr u)
      with Cons.prems(2) True ex have rest: "pkgsLoop env req rest w1 = (r, w')" by simp
      from a Inr have "\<not> list_ex badStatus (events w1)" by simp
      from Cons.IH [OF this rest] show ?thesis .
    qed
  qed
qed

lemma main_bad:
  assumes "main cl env = (code, w)"
  shows "\<not> list_ex badStatus (events w) \<or> (code = 1 \<and> badEnd w)"
proof (cases "events w = []")
  case True
  then show ?thesis by simp
next
  case False
  from main_run [OF assms False] obtain q resp w1 where
    w1: "events w1 = [Exchange q resp]" "Path (wURL q) = ''/v1/config/packages''" "stderr w1 = echoed resp"
    and rest: "case answer (OutJSON (decodePackages env)) resp of
              Inl e \<Rightarrow> code = 1 \<and> w = Fprintln (Error e) w1
            | Inr g \<Rightarrow> (\<exists>r. pkgsLoop env 2 (jsonOr [] g) w1 = (r, w) \<and>
                           code = (case r of Inl c \<Rightarrow> c | Inr u \<Rightarrow> 0))"
    by blast
  show ?thesis
  proof (cases "answer (OutJSON (decodePackages env)) resp")
    case (Inl e)
    with rest have code: "code = 1" and w: "w = Fprintln (Error e) w1" by simp_all
    have ev: "events w = [] @ [Exchange q resp]" using w w1(1) by (simp add: Fprintln_def)
    have err: "stderr w = [] @ echoed resp @ Error e @ [newline]"
      using w w1(3) by (simp add: Fprintln_def)
    show ?thesis
    proof (cases "badStatus (Exchange q resp)")
      case True
      have "\<not> isStages (Exchange q resp)" using w1(2) by (simp add: isStages_def)
      then have "sinceLastStages (events w) = [Exchange q resp]"
        using ev by simp
      then have sl: "list_all isExchange (sinceLastStages (events w))" by simp
      have "\<not> list_ex badStatus ([] :: event list)" by simp
      from badEndI [OF ev True this Inl err sl] code show ?thesis by simp
    next
      case False
      with ev show ?thesis by simp
    qed
  next
    case (Inr g)
    with rest obtain r where loop: "pkgsLoop env 2 (jsonOr [] g) w1 = (r, w)"
      and code: "code = (case r of Inl c \<Rightarrow> c | Inr u \<Rightarrow> 0)"
      by auto
    from answer_Inr_ok [OF Inr] have "\<not> badStatus (Exchange q resp)" by simp
    then have "\<not> list_ex badStatus (events w1)" using w1(1) by simp
    from pkgsLoop_bad [OF this loop] code show ?thesis by auto
  qed
qed

lemma sendReq_any:
  assumes "sendReq env base m uri inp out w = (r, w')"
  shows "(events w' = events w \<and> stderr w' = stderr w \<and> (\<exists>e. r = Inl (libError e))) \<or>
         (\<exists>q resp. events w' = events w @ [Exchange q resp] \<and> r = answer out resp \<and>
                    stderr w' = stderr w @ echoed resp)"
  using assms
  by (auto simp add: sendReq_def doRequest_eq newRequest_def newURL_def setMethod_def setURL_def
      setPath_def setBody_def Let_def split: option.splits sum.splits)


lemma exportPkg_paths:
  assumes "exportPkg env req pkg w = (r, w')"
    and "e \<in> set (drop (length (events w)) (events w'))" and "isExchange e"
  shows "pathOf e = stagesPath pkg \<or> (\<exists>f. wantedFile f \<and> pathOf e = filesPath pkg f)"
proof -
  from exportPkg_shape [OF assms(1)] obtain q resp evs fevs k where
    sh: "events w' = events w @ Exchange q resp # evs @ fevs" "Path (wURL q) = stagesPath pkg"
      "list_all (\<lambda>e. \<not> isExchange e) fevs"
      "map pathOf evs = map (filesPath pkg) (take k (wantedOf env resp))"
    by blast
  from assms(2) sh(1) have "e = Exchange q resp \<or> e \<in> set evs \<or> e \<in> set fevs" by auto
  then show ?thesis
  proof (elim disjE)
    assume "e = Exchange q resp"
    with sh(2) show ?thesis by simp
  next
    assume "e \<in> set evs"
    then have "pathOf e \<in> set (map pathOf evs)" by simp
    then obtain f where f: "f \<in> set (take k (wantedOf env resp))" "pathOf e = filesPath pkg f"
      unfolding sh(4) by auto
    from f(1) have "f \<in> set (wantedOf env resp)" by (rule in_set_takeD)
    then have "wantedFile f" by (simp add: wantedOf_def)
    with f(2) show ?thesis by blast
  next
    assume "e \<in> set fevs"
    with sh(3) assms(3) show ?thesis by (simp add: list_all_iff)
  qed
qed

lemma pkgsLoop_paths:
  "pkgsLoop env req pkgs w = (r, w') \<Longrightarrow> e \<in> set (drop (length (events w)) (events w')) \<Longrightarrow> isExchange e \<Longrightarrow>
     \<exists>pkg. wantedPkg pkg \<and> (pathOf e = stagesPath pkg \<or> (\<exists>f. wantedFile f \<and> pathOf e = filesPath pkg f))"
proof (induction pkgs arbitrary: w)
  case Nil
  then show ?case by auto
next
  case (Cons pkg rest)
  show ?case
  proof (cases "wantedPkg pkg")
    case False
    with Cons.prems(1) have "pkgsLoop env req rest w = (r, w')" by auto
    from Cons.IH [OF this Cons.prems(2,3)] show ?thesis .
  next
    case True
    obtain r1 w1 where ex: "exportPkg env req pkg w = (r1, w1)"
      by (cases "exportPkg env req pkg w")
    from exportPkg_stages [OF ex] obtain evs1 where evs1: "events w1 = events w @ evs1" by auto
    show ?thesis
    proof (cases r1)
      case (Inl c)
      with Cons.prems(1) True ex have "w' = w1" by simp
      with exportPkg_paths [OF ex _ Cons.prems(3)] Cons.prems(2) True show ?thesis by blast
    next
      case (Inr u)
      with Cons.prems(1) True ex have rest: "pkgsLoop env req rest w1 = (r, w')" by simp
      from pkgsLoop_stages [OF rest] obtain evs where evs: "events w' = events w1 @ evs" by auto
      from Cons.prems(2) evs evs1 have "e \<in> set evs1 \<or> e \<in> set evs" by auto
      then show ?thesis
      proof
        assume "e \<in> set evs1"
        then have "e \<in> set (drop (length (events w)) (events w1))" using evs1 by simp
        from exportPkg_paths [OF ex this Cons.prems(3)] True show ?thesis by blast
      next
        assume "e \<in> set evs"
        then have "e \<in> set (drop (length (events w1)) (events w'))" using evs by simp
        from Cons.IH [OF rest this Cons.prems(3)] show ?thesis .
      qed
    qed
  qed
qed

lemma main_paths:
  assumes "main cl env = (code, w)" and "e \<in> set (events w)" and "isExchange e"
  shows "pathOf e = ''/v1/config/packages'' \<or>
         (\<exists>pkg. wantedPkg pkg \<and> (pathOf e = stagesPath pkg \<or> (\<exists>f. wantedFile f \<and> pathOf e = filesPath pkg f)))"
proof -
  from assms(2) have ne: "events w \<noteq> []" by auto
  from main_run [OF assms(1) ne] obtain q resp w1 where
    w1: "events w1 = [Exchange q resp]" "Path (wURL q) = ''/v1/config/packages''"
    and rest: "case answer (OutJSON (decodePackages env)) resp of
              Inl e \<Rightarrow> code = 1 \<and> w = Fprintln (Error e) w1
            | Inr g \<Rightarrow> (\<exists>r. pkgsLoop env 2 (jsonOr [] g) w1 = (r, w) \<and>
                           code = (case r of Inl c \<Rightarrow> c | Inr u \<Rightarrow> 0))"
    by blast
  show ?thesis
  proof (cases "answer (OutJSON (decodePackages env)) resp")
    case (Inl err)
    with rest w1(1) have "events w = [Exchange q resp]" by (simp add: Fprintln_def)
    with assms(2) w1(2) show ?thesis by simp
  next
    case (Inr g)
    with rest obtain r where loop: "pkgsLoop env 2 (jsonOr [] g) w1 = (r, w)" by auto
    from pkgsLoop_stages [OF loop] obtain evs where evs: "events w = events w1 @ evs" by auto
    from assms(2) evs w1(1) have "e = Exchange q resp \<or> e \<in> set evs" by auto
    then show ?thesis
    proof
      assume "e = Exchange q resp"
      with w1(2) show ?thesis by simp
    next
      assume "e \<in> set evs"
      then have "e \<in> set (drop (length (events w1)) (events w))" using evs by simp
      from pkgsLoop_paths [OF loop this assms(3)] show ?thesis by blast
    qed
  qed
qed

subsection \<open>The characters of an escaped name\<close>

lemma of_char_less_256: "(of_char c :: nat) < 256"
proof -
  have "(of_char c :: nat) mod 256 < 256" by simp
  then show ?thesis by (simp only: of_char_mod_256)
qed

lemma upperhex_alnum: "n < 16 \<Longrightarrow> isAlnum (upperhex ! n)"
proof -
  have "list_all (\<lambda>n. isAlnum (upperhex ! n)) [0..<16]" by code_simp
  then show "n < 16 \<Longrightarrow> isAlnum (upperhex ! n)" by (simp add: list_all_iff)
qed

lemma escapeByte_chars:
  "c' \<in> set (escapeByte c) \<Longrightarrow> isAlnum c' \<or> c' \<in> set ''-_.~$&+:=@%''"
proof -
  have a: "(of_char c :: nat) div 16 < 16" using of_char_less_256 [of c] by arith
  have b: "(of_char c :: nat) mod 16 < 16" by simp
  assume "c' \<in> set (escapeByte c)"
  then show ?thesis
    using upperhex_alnum [OF a] upperhex_alnum [OF b]
    by (auto simp add: escapeByte_def shouldEscape_def split: if_splits)
qed

lemma PathEscape_chars:
  "c \<in> set (PathEscape s) \<Longrightarrow> isAlnum c \<or> c \<in> set ''-_.~$&+:=@%''"
  unfolding PathEscape_def by (auto dest: escapeByte_chars simp del: set_simps)


subsection \<open>Concrete runs\<close>

lemma PathEscape_etc: "PathEscape ''etc'' = ''etc''" "PathEscape ''s3'' = ''s3''"
  by (simp_all add: PathEscape_def escapeByte_def shouldEscape_def isAlnum_def upperhex_def)

lemmas run_simps = sendReq_None events_sent stderr_sent demoEnv_simps
  scripted_def decodeTable_def answer_def echoed_def Fprintln_def events_template stderr_template
  exportPkg_def writeBundle_def exitWith_def Path_wireFor Let_def demoPackages_def demoListing_def
  fileEvents_def exchanges_def PathEscape_my_pkg PathEscape_s1 PathEscape_etc




lemma enc_new:
  "encodeBundle rp [(''sub/dir/file.conf'', ''new'')] =
     ''{'' @ quoted ''files'' @ '':{'' @ quoted ''sub/dir/file.conf'' @ '':'' @ quoted ''new'' @ ''}}'' @ [newline]"
  by (simp add: encodeBundle_def encodeMap_def sortByKey_def jsonString_def htmlSafe_def dquote_def backslash_def
      RuneError_def hex_def escapeASCII_def quoted_def)


text \<open>The loop over a listing without a wanted entry issues no request.\<close>

lemma demo_nothing_wanted:
  "filesLoop env req pkg [\<lparr>fileName = ''a'', fileType = ''file''\<rparr>, \<lparr>fileName = ''dir/b'', fileType = ''directory''\<rparr>] [] w
     = (Inr [], w)"
  by simp

lemma demo_write:
  "writeBundle (demoEnv rs) demoPkg [(''sub/dir/file.conf'', b)] w1 =
     (Inr (), w1\<lparr>events := events w1 @
        [Created ''my%20pkg.json'', Wrote ''my%20pkg.json'' (encodeBundle Escaped [(''sub/dir/file.conf'', b)]),
         Closed ''my%20pkg.json'']\<rparr>)"
  by (simp add: writeBundle_def demoEnv_simps Let_def demoPkg_def PathEscape_my_pkg)





text \<open>A run that a response 404 to the second fetch ends.\<close>

lemma demo_404:
  "map bodyOf (events (snd (main demoCmd (demoEnv [Response 200 ''packages'' None, Response 200 ''listing'' None,
      Response 200 ''old'' None, Response 404 ''not found'' None])))) =
     [''packages'', ''listing'', ''old'', ''not found'']"
  "stderr (snd (main demoCmd (demoEnv [Response 200 ''packages'' None, Response 200 ''listing'' None,
      Response 200 ''old'' None, Response 404 ''not found'' None]))) = ''not found'' @ ''HTTP 404'' @ [newline]"
  "fileEvents (events (snd (main demoCmd (demoEnv [Response 200 ''packages'' None, Response 200 ''listing'' None,
      Response 200 ''old'' None, Response 404 ''not found'' None])))) = []"
  "\<exists>q. Exchange q (Response 404 ''not found'' None) \<in> set (events (snd (main demoCmd (demoEnv
      [Response 200 ''packages'' None, Response 200 ''listing'' None,
      Response 200 ''old'' None, Response 404 ''not found'' None]))))"
  by (simp_all add: main_configured [OF configured_demo] run_simps itoa_def digits.simps)

text \<open>One package whose listing has a file name with a space and a question mark.\<close>

lemma demo_spaces:
  "map pathOf (exchanges (events (snd (exportPkg (demoEnv [Response 200 ''spaces'' None, Response 200 ''x = 1'' None])
      2 demoPkg demoWorld)))) =
     [''/v1/config/stages/my%20pkg/s1'', ''/v1/config/files/my%20pkg/s1/conf.d/a b?.conf'']"
  by (simp add: run_simps demoPkg_def events_demoWorld)





text \<open>
  A run in which the first fetch of a file is answered with 302 and a \<^verbatim>\<open>Location\<close>:
  the client follows it, and the run ends well.
\<close>

lemma redirectingEnv_fields:
  "getenv (redirectingEnv rs) ''I2_PASS'' = ''secret''"
  "readFile (redirectingEnv rs) ''ca.pem'' = Inr ''-----BEGIN CERTIFICATE-----''"
  "appendCertsFromPEM (redirectingEnv rs) ''-----BEGIN CERTIFICATE-----''"
  "roundTrip (redirectingEnv rs) = scriptedL rs"
  "redirectTo (redirectingEnv rs) ireq req loc = Inr ((wURL req)\<lparr>Path := loc\<rparr>, wHeader ireq)"
  "decodePackages (redirectingEnv rs) = decodeTable [(''packages'', demoPackages)]"
  "decodeFiles (redirectingEnv rs) = decodeTable
     [(''listing'', demoListing), (''nothing'', []),
      (''spaces'', [\<lparr>fileName = ''conf.d/a b?.conf'', fileType = ''file''\<rparr>])]"
  "osCreate (redirectingEnv rs) evs f = None"
  "fileWrite (redirectingEnv rs) evs f buf = WriteOk"
  "fileClose (redirectingEnv rs) evs f = None"
  "invalidUTF8 (redirectingEnv rs) = Escaped"
  by (simp_all add: redirectingEnv_def demoEnv_def)

lemma configured_redirecting: "configured demoCmd (redirectingEnv rs)"
  by (simp add: configured_def demoCmd_def flagString_def redirectingEnv_fields)

lemma redirects_template: "redirects (template cl env) = []"
  by (simp add: template_def newURL_def newHeader_def newRequest_def SetBasicAuth_def world0_def)

lemma redirects_Fprintln: "redirects (Fprintln m w) = redirects w"
  by (simp add: Fprintln_def)

lemma wBody_template: "wBody (wireFor w 2 m uri) = Body (requests w 2)"
  by (simp add: wireFor_def)

lemma requests_sent: "base < nextAddr w \<Longrightarrow> requests (sent env base' m uri w) base = requests w base"
  by (simp add: sent_def sendReq_def doRequest_eq newRequest_def newURL_def setMethod_def setURL_def setPath_def
      onWire_def wireFor_def Let_def returned_def followed_def)

lemma nextAddr_sent: "nextAddr (sent env base' m uri w) = Suc (Suc (nextAddr w))"
  by (simp add: sent_def sendReq_def doRequest_eq newRequest_def newURL_def setMethod_def setURL_def setPath_def
      onWire_def wireFor_def Let_def returned_def followed_def)

lemma template_req: "requests (template cl env) 2 = \<lparr>Method = [], URLptr = 0, Headerptr = 1, Body = None\<rparr>" "nextAddr (template cl env) = 3"
  by (simp_all add: template_def newURL_def newHeader_def newRequest_def SetBasicAuth_def world0_def)

lemmas redirect_simps = sendReq_None events_sent stderr_sent redirects_sent
  redirectingEnv_fields returned_def followed_def do_loop.simps scriptedL_def redirectBehavior_def
  decodeTable_def answer_def echoed_def Fprintln_def events_template stderr_template redirects_template
  exportPkg_def writeBundle_def exitWith_def Path_wireFor Let_def demoPackages_def demoListing_def
  fileEvents_def exchanges_def PathEscape_my_pkg PathEscape_s1 PathEscape_etc wMethod_wireFor wBody_template
  requests_sent nextAddr_sent template_req hop_def

lemma redirect_run:
  "fst (main demoCmd (redirectingEnv
      [(Response 200 ''packages'' None, []), (Response 200 ''listing'' None, []),
       (Response 302 ''moved'' None, ''/elsewhere''), (Response 200 ''old'' None, []),
       (Response 200 ''new'' None, []), (Response 200 ''nothing'' None, [])])) = 0"
  "stderr (snd (main demoCmd (redirectingEnv
      [(Response 200 ''packages'' None, []), (Response 200 ''listing'' None, []),
       (Response 302 ''moved'' None, ''/elsewhere''), (Response 200 ''old'' None, []),
       (Response 200 ''new'' None, []), (Response 200 ''nothing'' None, [])]))) = []"
  "map hop (redirects (snd (main demoCmd (redirectingEnv
      [(Response 200 ''packages'' None, []), (Response 200 ''listing'' None, []),
       (Response 302 ''moved'' None, ''/elsewhere''), (Response 200 ''old'' None, []),
       (Response 200 ''new'' None, []), (Response 200 ''nothing'' None, [])])))) =
     [(''/v1/config/files/my%20pkg/s1/sub/dir/file.conf'', 302, ''/elsewhere'')]"
  "fileEvents (events (snd (main demoCmd (redirectingEnv
      [(Response 200 ''packages'' None, []), (Response 200 ''listing'' None, []),
       (Response 302 ''moved'' None, ''/elsewhere''), (Response 200 ''old'' None, []),
       (Response 200 ''new'' None, []), (Response 200 ''nothing'' None, [])])))) =
     [Created ''my%20pkg.json'', Wrote ''my%20pkg.json'' (encodeBundle Escaped [(''sub/dir/file.conf'', ''new'')]),
      Closed ''my%20pkg.json'']"
  "map pathOf (exchanges (events (snd (main demoCmd (redirectingEnv
      [(Response 200 ''packages'' None, []), (Response 200 ''listing'' None, []),
       (Response 302 ''moved'' None, ''/elsewhere''), (Response 200 ''old'' None, []),
       (Response 200 ''new'' None, []), (Response 200 ''nothing'' None, [])]))))) =
     [''/v1/config/packages'', ''/v1/config/stages/my%20pkg/s1'',
      ''/v1/config/files/my%20pkg/s1/sub/dir/file.conf'', ''/v1/config/files/my%20pkg/s1/sub/dir/file.conf'',
      ''/v1/config/stages/etc/s3'']"
  "map bodyOf (exchanges (events (snd (main demoCmd (redirectingEnv
      [(Response 200 ''packages'' None, []), (Response 200 ''listing'' None, []),
       (Response 302 ''moved'' None, ''/elsewhere''), (Response 200 ''old'' None, []),
       (Response 200 ''new'' None, []), (Response 200 ''nothing'' None, [])]))))) =
     [''packages'', ''listing'', ''old'', ''new'', ''nothing'']"
  by (simp_all add: main_configured [OF configured_redirecting] redirect_simps)



section \<open>The claims\<close>

subsection \<open>C9: the request template\<close>

text \<open>
  C9. A call of \<^verbatim>\<open>sendReq\<close> leaves the request template as it was: the request \<open>base\<close>
  points to, the URL that request points to, and every header map are the same before
  and after the call. The method and the URL are overwritten on a copy: a new request at
  a fresh address takes the method, and points to a new URL, a copy of the template's URL
  with the path replaced. The template is allocated: its address and its URL's address
  lie below the next free address.
\<close>

theorem sendReq_leaves_template:
  assumes "base < nextAddr w" and "URLptr (requests w base) < nextAddr w"
    and "sendReq env base method uri inp out w = (r, w')"
  shows "requests w' base = requests w base \<and>
         urls w' (URLptr (requests w base)) = urls w (URLptr (requests w base)) \<and>
         headers w' = headers w \<and>
         Method (requests w' (nextAddr w)) = method \<and>
         URLptr (requests w' (nextAddr w)) = Suc (nextAddr w) \<and>
         urls w' (Suc (nextAddr w)) = (urls w (URLptr (requests w base)))\<lparr>Path := uri\<rparr>"
  using assms
  by (auto simp add: sendReq_def doRequest_eq newRequest_def newURL_def setMethod_def setURL_def
      setPath_def setBody_def Let_def split: option.splits sum.splits)

text \<open>The template of \<open>demoWorld\<close> keeps its empty method and path; the copy's URL has the path.\<close>

theorem sendReq_leaves_template_witness:
  "(2::nat) < nextAddr demoWorld \<and> URLptr (requests demoWorld 2) < nextAddr demoWorld \<and>
   requests (snd (sendReq (demoEnv []) 2 ''GET'' ''/v1/config/packages'' None (OutNil :: unit out) demoWorld)) 2
     = \<lparr>Method = [], URLptr = 0, Headerptr = 1, Body = None\<rparr> \<and>
   urls (snd (sendReq (demoEnv []) 2 ''GET'' ''/v1/config/packages'' None (OutNil :: unit out) demoWorld)) 0
     = \<lparr>Scheme = ''https'', Host = ''icinga:5665'', Path = []\<rparr> \<and>
   urls (snd (sendReq (demoEnv []) 2 ''GET'' ''/v1/config/packages'' None (OutNil :: unit out) demoWorld)) 4
     = \<lparr>Scheme = ''https'', Host = ''icinga:5665'', Path = ''/v1/config/packages''\<rparr>"
proof -
  have a: "(2::nat) < nextAddr demoWorld" "URLptr (requests demoWorld 2) < nextAddr demoWorld"
    and b: "requests demoWorld 2 = \<lparr>Method = [], URLptr = 0, Headerptr = 1, Body = None\<rparr>"
      "urls demoWorld 0 = \<lparr>Scheme = ''https'', Host = ''icinga:5665'', Path = []\<rparr>"
      "nextAddr demoWorld = 3"
    by (simp_all add: demoWorld_def template_def demoCmd_def flagString_def SetBasicAuth_def
      newURL_def newHeader_def newRequest_def world0_def)
  have c: "sendReq (demoEnv []) 2 ''GET'' ''/v1/config/packages'' None (OutNil :: unit out) demoWorld =
      (fst (sendReq (demoEnv []) 2 ''GET'' ''/v1/config/packages'' None (OutNil :: unit out) demoWorld),
       snd (sendReq (demoEnv []) 2 ''GET'' ''/v1/config/packages'' None (OutNil :: unit out) demoWorld))"
    by simp
  from sendReq_leaves_template [OF a c] a b show ?thesis
    by (simp add: eval_nat_numeral)
qed

subsection \<open>C8: missing configuration\<close>

text \<open>
  C8. When one of the five flags is empty after parsing (\<^verbatim>\<open>-port\<close> has the default
  5665, the others the empty string) or \<^verbatim>\<open>I2_PASS\<close> is empty or unset (\<^verbatim>\<open>os.Getenv\<close>
  gives the empty string for both), \<^verbatim>\<open>main\<close> exits with code 2, standard error holds one
  of the six messages with its newline, and no request is issued and no file touched: the
  list of events is empty.
\<close>

theorem missing_configuration_exits_2:
  assumes "flagString (host_flag cl) [] = [] \<or> flagString (port_flag cl) ''5665'' = [] \<or>
           flagString (ca_flag cl) [] = [] \<or> flagString (cn_flag cl) [] = [] \<or>
           flagString (user_flag cl) [] = [] \<or> getenv env ''I2_PASS'' = []"
  shows "fst (main cl env) = 2 \<and> events (snd (main cl env)) = [] \<and>
         stderr (snd (main cl env)) \<in> set (map (\<lambda>m. m @ [newline])
           [''-host missing'', ''-port missing'', ''-ca missing'', ''-cn missing'', ''-user missing'',
            ''$I2_PASS missing''])"
  using assms by (auto simp add: main_def Let_def Fprintln_def world0_def)

text \<open>Without \<^verbatim>\<open>-user\<close> the message is that of the user flag.\<close>

theorem missing_configuration_exits_2_witness:
  "flagString (user_flag (demoCmd\<lparr>user_flag := None\<rparr>)) [] = [] \<and>
   fst (main (demoCmd\<lparr>user_flag := None\<rparr>) (demoEnv [])) = 2 \<and>
   events (snd (main (demoCmd\<lparr>user_flag := None\<rparr>) (demoEnv []))) = [] \<and>
   stderr (snd (main (demoCmd\<lparr>user_flag := None\<rparr>) (demoEnv []))) = ''-user missing'' @ [newline]"
proof -
  have h: "flagString (user_flag (demoCmd\<lparr>user_flag := None\<rparr>)) [] = []"
    by (simp add: flagString_def)
  have "stderr (snd (main (demoCmd\<lparr>user_flag := None\<rparr>) (demoEnv []))) = ''-user missing'' @ [newline]"
    by (simp add: main_def demoCmd_def flagString_def Fprintln_def world0_def)
  with h missing_configuration_exits_2 [of "demoCmd\<lparr>user_flag := None\<rparr>" "demoEnv []"]
  show ?thesis by simp
qed

subsection \<open>C1: which entries reach the bundle\<close>

text \<open>
  C1. When the loop over a stage's listing ends (with the map the bundle is written
  from), a name is a key of the map if and only if the listing has an entry of that name
  whose type is \<^verbatim>\<open>file\<close> and whose name contains \<^verbatim>\<open>/\<close>; no key occurs twice; and the
  requests the loop has issued are the fetches of exactly these entries, in the order of
  the listing, each answered with status 200. An entry that fails either condition is
  not fetched and adds nothing to the map.
\<close>

theorem wanted_files_make_the_bundle:
  assumes "filesLoop env req pkg files [] w = (Inr uploadFiles, w')"
  shows "(\<forall>n. n \<in> fst ` set uploadFiles \<longleftrightarrow>
            (\<exists>f. f \<in> set files \<and> fileName f = n \<and> fileType f = ''file'' \<and> CHR ''/'' \<in> set n)) \<and>
         distinct (map fst uploadFiles) \<and>
         map pathOf (drop (length (events w)) (events w')) =
           map (filesPath pkg) (filter (\<lambda>f. fileType f = ''file'' \<and> CHR ''/'' \<in> set (fileName f)) files) \<and>
         list_all fetched (drop (length (events w)) (events w'))"
proof -
  from filesLoop_Inr [OF assms] obtain evs where
    evs: "events w' = events w @ evs" "list_all fetched evs"
      "map pathOf evs = map (filesPath pkg) (filter wantedFile files)"
      "uploadFiles = assignAll (zip (map fileName (filter wantedFile files)) (map bodyOf evs)) []"
    by blast
  from evs(3) have len: "length evs = length (filter wantedFile files)"
    by (rule map_eq_imp_length_eq)
  have "fst ` set uploadFiles = fileName ` set (filter wantedFile files)"
    using len by (simp add: evs(4) keys_assignAll keys_zip)
  then have "\<forall>n. n \<in> fst ` set uploadFiles \<longleftrightarrow>
            (\<exists>f. f \<in> set files \<and> fileName f = n \<and> fileType f = ''file'' \<and> CHR ''/'' \<in> set n)"
    by (auto simp add: Contains_slash image_iff)
  moreover have "distinct (map fst uploadFiles)"
    by (simp add: evs(4) distinct_assignAll)
  moreover have "map pathOf (drop (length (events w)) (events w')) =
           map (filesPath pkg) (filter (\<lambda>f. fileType f = ''file'' \<and> CHR ''/'' \<in> set (fileName f)) files)"
    using evs(1,3) by (simp add: Contains_slash)
  moreover have "list_all fetched (drop (length (events w)) (events w'))"
    using evs(1,2) by simp
  ultimately show ?thesis by blast
qed


text \<open>
  Of the four entries of \<open>demoListing\<close>, \<^verbatim>\<open>a\<close> has no separator and \<^verbatim>\<open>dir/b\<close> is a
  directory: the map has the one key \<^verbatim>\<open>sub/dir/file.conf\<close>, fetched twice.
\<close>

theorem wanted_files_make_the_bundle_witness:
  "fst (filesLoop (demoEnv [Response 200 ''old'' None, Response 200 ''new'' None]) 2 demoPkg demoListing [] demoWorld)
     = Inr [(''sub/dir/file.conf'', ''new'')] \<and>
   ''sub/dir/file.conf'' \<in> fst ` set [(''sub/dir/file.conf'', ''new'')] \<and>
   ''a'' \<notin> fst ` set [(''sub/dir/file.conf'', ''new'')] \<and>
   ''dir/b'' \<notin> fst ` set [(''sub/dir/file.conf'', ''new'')] \<and>
   map pathOf (events (snd (filesLoop (demoEnv [Response 200 ''old'' None, Response 200 ''new'' None]) 2 demoPkg demoListing [] demoWorld)))
     = [''/v1/config/files/my%20pkg/s1/sub/dir/file.conf'', ''/v1/config/files/my%20pkg/s1/sub/dir/file.conf'']"
proof -
  let ?run = "filesLoop (demoEnv [Response 200 ''old'' None, Response 200 ''new'' None]) 2 demoPkg demoListing [] demoWorld"
  have run: "?run = (Inr [(''sub/dir/file.conf'', ''new'')], snd ?run)"
    using demo_fetch(1) [OF events_demoWorld] by (simp add: prod_eq_iff)
  from wanted_files_make_the_bundle [OF run] have
    "map pathOf (drop (length (events demoWorld)) (events (snd ?run))) =
       map (filesPath demoPkg) (filter (\<lambda>f. fileType f = ''file'' \<and> CHR ''/'' \<in> set (fileName f)) demoListing)"
    by blast
  then have "map pathOf (events (snd ?run)) =
      [''/v1/config/files/my%20pkg/s1/sub/dir/file.conf'', ''/v1/config/files/my%20pkg/s1/sub/dir/file.conf'']"
    by (simp add: events_demoWorld demoListing_def demoPkg_def PathEscape_my_pkg PathEscape_s1)
  with demo_fetch(1) [OF events_demoWorld] show ?thesis by simp
qed

subsection \<open>C10: two entries of the same name\<close>

text \<open>
  C10. When the loop over a stage's listing ends, there is one fetch for every entry
  of type \<^verbatim>\<open>file\<close> with a \<^verbatim>\<open>/\<close> in its name, in the order of the listing, entries of
  the same name included; and the map gives a name the body fetched for the last such
  entry of that name: a later fetch overwrites an earlier one.
\<close>

theorem last_fetch_wins:
  assumes "filesLoop env req pkg files [] w = (Inr uploadFiles, w')"
  shows "let names = map fileName (filter (\<lambda>f. fileType f = ''file'' \<and> CHR ''/'' \<in> set (fileName f)) files);
             evs = drop (length (events w)) (events w')
         in length evs = length names \<and> list_all fetched evs \<and>
            map pathOf evs =
              map (\<lambda>n. ''/v1/config/files/'' @ PathEscape (pkgName pkg) @ ''/'' @
                         PathEscape (pkgActiveStage pkg) @ ''/'' @ n) names \<and>
            (\<forall>i. i < length names \<and> (\<forall>j. i < j \<and> j < length names \<longrightarrow> names ! j \<noteq> names ! i) \<longrightarrow>
                 map_of uploadFiles (names ! i) = Some (bodyOf (evs ! i)))"
proof -
  from filesLoop_Inr [OF assms] obtain evs where
    evs: "events w' = events w @ evs" "list_all fetched evs"
      "map pathOf evs = map (filesPath pkg) (filter wantedFile files)"
      "uploadFiles = assignAll (zip (map fileName (filter wantedFile files)) (map bodyOf evs)) []"
    by blast
  define names where "names = map fileName (filter wantedFile files)"
  from evs(3) have len: "length evs = length names"
    unfolding names_def length_map by (rule map_eq_imp_length_eq)
  have d: "drop (length (events w)) (events w') = evs" using evs(1) by simp
  have n: "map fileName (filter (\<lambda>f. fileType f = ''file'' \<and> CHR ''/'' \<in> set (fileName f)) files) = names"
    by (simp add: names_def Contains_slash)
  have p: "map pathOf evs = map (\<lambda>n. ''/v1/config/files/'' @ PathEscape (pkgName pkg) @ ''/'' @
                         PathEscape (pkgActiveStage pkg) @ ''/'' @ n) names"
    using evs(3) by (simp add: names_def comp_def)
  have l: "map_of uploadFiles (names ! i) = Some (bodyOf (evs ! i))"
    if "i < length names" "\<forall>j. i < j \<and> j < length names \<longrightarrow> names ! j \<noteq> names ! i" for i
  proof -
    have "map_of (assignAll (zip names (map bodyOf evs)) []) (names ! i) = Some (map bodyOf evs ! i)"
      using len that by (intro last_assignment) simp_all
    then show ?thesis using that(1) len by (simp add: evs(4) names_def)
  qed
  show ?thesis
    unfolding Let_def d n using len evs(2) p l by blast
qed

text \<open>
  \<open>demoListing\<close> names \<^verbatim>\<open>sub/dir/file.conf\<close> twice; the server answers \<^verbatim>\<open>old\<close>, then
  \<^verbatim>\<open>new\<close>; the map holds \<^verbatim>\<open>new\<close>, the body of the second fetch.
\<close>

theorem last_fetch_wins_witness:
  "fst (filesLoop (demoEnv [Response 200 ''old'' None, Response 200 ''new'' None]) 2 demoPkg demoListing [] demoWorld)
     = Inr [(''sub/dir/file.conf'', ''new'')] \<and>
   map fileName (filter (\<lambda>f. fileType f = ''file'' \<and> CHR ''/'' \<in> set (fileName f)) demoListing)
     = [''sub/dir/file.conf'', ''sub/dir/file.conf''] \<and>
   map bodyOf (events (snd (filesLoop (demoEnv [Response 200 ''old'' None, Response 200 ''new'' None]) 2 demoPkg demoListing [] demoWorld)))
     = [''old'', ''new''] \<and>
   map_of [(''sub/dir/file.conf'', ''new'')] ''sub/dir/file.conf''
     = Some (bodyOf (events (snd (filesLoop (demoEnv [Response 200 ''old'' None, Response 200 ''new'' None]) 2 demoPkg demoListing [] demoWorld)) ! 1))"
proof -
  let ?run = "filesLoop (demoEnv [Response 200 ''old'' None, Response 200 ''new'' None]) 2 demoPkg demoListing [] demoWorld"
  have run: "?run = (Inr [(''sub/dir/file.conf'', ''new'')], snd ?run)"
    using demo_fetch(1) [OF events_demoWorld] by (simp add: prod_eq_iff)
  have names: "map fileName (filter (\<lambda>f. fileType f = ''file'' \<and> CHR ''/'' \<in> set (fileName f)) demoListing)
     = [''sub/dir/file.conf'', ''sub/dir/file.conf'']"
    by (simp add: demoListing_def)
  from last_fetch_wins [OF run] have
    "\<forall>i. i < length [''sub/dir/file.conf'', ''sub/dir/file.conf''] \<and>
        (\<forall>j. i < j \<and> j < length [''sub/dir/file.conf'', ''sub/dir/file.conf''] \<longrightarrow>
           [''sub/dir/file.conf'', ''sub/dir/file.conf''] ! j \<noteq> [''sub/dir/file.conf'', ''sub/dir/file.conf''] ! i) \<longrightarrow>
        map_of [(''sub/dir/file.conf'', ''new'')] ([''sub/dir/file.conf'', ''sub/dir/file.conf''] ! i)
          = Some (bodyOf (drop (length (events demoWorld)) (events (snd ?run)) ! i))"
    unfolding Let_def names by blast
  from this [rule_format, of 1] have
    "map_of [(''sub/dir/file.conf'', ''new'')] ''sub/dir/file.conf'' = Some (bodyOf (events (snd ?run) ! 1))"
    by (simp add: events_demoWorld)
  with names demo_fetch(1,3) [OF events_demoWorld] show ?thesis by simp
qed

subsection \<open>C7: a package without files\<close>

text \<open>
  C7. The map a package's loop ends with is empty if and only if no entry of the listing
  has type \<^verbatim>\<open>file\<close> and a \<^verbatim>\<open>/\<close> in its name; the loop itself touches no file (its
  events are exchanges). With the empty map \<^verbatim>\<open>if len(uploadFiles) > 0\<close> does nothing:
  the world stays as it is, no file is created, not even an empty one. Where the block
  does add an event the map is not empty; and with a map that is not empty, the file
  \<^verbatim>\<open><escaped name>.json\<close> is created, provided \<^verbatim>\<open>os.Create\<close> succeeds.
\<close>

theorem empty_mapping_writes_no_file:
  assumes "filesLoop env req pkg files [] w = (Inr uploadFiles, w1)"
    and "writeBundle env pkg uploadFiles w1 = (r, w2)"
  shows "(uploadFiles = [] \<longleftrightarrow>
            (\<forall>f. f \<in> set files \<longrightarrow> \<not> (fileType f = ''file'' \<and> CHR ''/'' \<in> set (fileName f)))) \<and>
         list_all isExchange (drop (length (events w)) (events w1)) \<and>
         (uploadFiles = [] \<longrightarrow> r = Inr () \<and> w2 = w1) \<and>
         (events w2 \<noteq> events w1 \<longrightarrow> uploadFiles \<noteq> []) \<and>
         (uploadFiles \<noteq> [] \<and> osCreate env (events w1) (PathEscape (pkgName pkg) @ ''.json'') = None \<longrightarrow>
            (\<exists>evs. events w2 = events w1 @ Created (PathEscape (pkgName pkg) @ ''.json'') # evs))"
proof -
  from filesLoop_Inr [OF assms(1)] obtain evs where
    evs: "events w1 = events w @ evs" "list_all fetched evs"
      "map pathOf evs = map (filesPath pkg) (filter wantedFile files)"
      "uploadFiles = assignAll (zip (map fileName (filter wantedFile files)) (map bodyOf evs)) []"
    by blast
  from evs(3) have len: "length evs = length (filter wantedFile files)"
    by (rule map_eq_imp_length_eq)
  have "uploadFiles = [] \<longleftrightarrow> filter wantedFile files = []"
    using len by (auto simp add: evs(4) assignAll_empty_iff)
  then have a: "uploadFiles = [] \<longleftrightarrow>
            (\<forall>f. f \<in> set files \<longrightarrow> \<not> (fileType f = ''file'' \<and> CHR ''/'' \<in> set (fileName f)))"
    by (auto simp add: filter_empty_conv Contains_slash)
  have b: "list_all isExchange (drop (length (events w)) (events w1))"
    using evs(1,2) by (auto simp: list_all_iff fetched_not_bad)
  have c: "uploadFiles = [] \<longrightarrow> r = Inr () \<and> w2 = w1"
    using assms(2) by (auto simp: writeBundle_empty)
  then have d: "events w2 \<noteq> events w1 \<longrightarrow> uploadFiles \<noteq> []" by auto
  have e: "uploadFiles \<noteq> [] \<and> osCreate env (events w1) (PathEscape (pkgName pkg) @ ''.json'') = None \<longrightarrow>
            (\<exists>evs. events w2 = events w1 @ Created (PathEscape (pkgName pkg) @ ''.json'') # evs)"
    using writeBundle_created [OF assms(2)] by blast
  from a b c d e show ?thesis by blast
qed

text \<open>
  A listing with an entry without separator and a directory: nothing is fetched or
  written. With \<open>demoListing\<close> the map has a key, and \<^verbatim>\<open>my%20pkg.json\<close> is created.
\<close>

theorem empty_mapping_writes_no_file_witness:
  "filesLoop (demoEnv []) 2 demoPkg
      [\<lparr>fileName = ''a'', fileType = ''file''\<rparr>, \<lparr>fileName = ''dir/b'', fileType = ''directory''\<rparr>] [] demoWorld
     = (Inr [], demoWorld) \<and>
   writeBundle (demoEnv []) demoPkg [] demoWorld = (Inr (), demoWorld) \<and>
   events demoWorld = [] \<and>
   fst (filesLoop (demoEnv [Response 200 ''old'' None, Response 200 ''new'' None]) 2 demoPkg demoListing [] demoWorld)
     = Inr [(''sub/dir/file.conf'', ''new'')] \<and>
   (\<exists>evs. events (snd (writeBundle (demoEnv [Response 200 ''old'' None, Response 200 ''new'' None]) demoPkg
                 [(''sub/dir/file.conf'', ''new'')]
                 (snd (filesLoop (demoEnv [Response 200 ''old'' None, Response 200 ''new'' None]) 2 demoPkg demoListing [] demoWorld))))
      = events (snd (filesLoop (demoEnv [Response 200 ''old'' None, Response 200 ''new'' None]) 2 demoPkg demoListing [] demoWorld))
          @ Created ''my%20pkg.json'' # evs)"
proof -
  let ?E = "demoEnv [Response 200 ''old'' None, Response 200 ''new'' None]"
  let ?run = "filesLoop ?E 2 demoPkg demoListing [] demoWorld"
  let ?w2 = "snd (writeBundle ?E demoPkg [(''sub/dir/file.conf'', ''new'')] (snd ?run))"
  have "[] = [] \<longrightarrow> Inr () = (Inr () :: int + unit) \<and> demoWorld = demoWorld"
    using empty_mapping_writes_no_file
      [OF demo_nothing_wanted [of "demoEnv []" 2 demoPkg demoWorld] writeBundle_empty [of "demoEnv []" demoPkg demoWorld]]
    by blast
  then have a: "filesLoop (demoEnv []) 2 demoPkg
      [\<lparr>fileName = ''a'', fileType = ''file''\<rparr>, \<lparr>fileName = ''dir/b'', fileType = ''directory''\<rparr>] [] demoWorld
     = (Inr [], demoWorld) \<and>
   writeBundle (demoEnv []) demoPkg [] demoWorld = (Inr (), demoWorld) \<and>
   events demoWorld = []"
    by (simp add: demo_nothing_wanted writeBundle_empty events_demoWorld)
  have run: "?run = (Inr [(''sub/dir/file.conf'', ''new'')], snd ?run)"
    using demo_fetch(1) [OF events_demoWorld] by (simp add: prod_eq_iff)
  have wr: "writeBundle ?E demoPkg [(''sub/dir/file.conf'', ''new'')] (snd ?run) = (Inr (), ?w2)"
    by (simp add: demo_write)
  have "[(''sub/dir/file.conf'', ''new'')] \<noteq> [] \<and>
        osCreate ?E (events (snd ?run)) (PathEscape (pkgName demoPkg) @ ''.json'') = None \<longrightarrow>
          (\<exists>evs. events ?w2 = events (snd ?run) @ Created (PathEscape (pkgName demoPkg) @ ''.json'') # evs)"
    using empty_mapping_writes_no_file [OF run wr] by blast
  then have b: "\<exists>evs. events ?w2 = events (snd ?run) @ Created ''my%20pkg.json'' # evs"
    by (simp add: demoEnv_simps demoPkg_def PathEscape_my_pkg)
  from a b demo_fetch(1) [OF events_demoWorld] show ?thesis by simp
qed

subsection \<open>C6: the bundle's file name and its keys\<close>




subsection \<open>C2: the content of a file\<close>





subsection \<open>C5: one stage listing per package with a name and an active stage\<close>





subsection \<open>C3: a response with a status other than 200\<close>

text \<open>
  C3 as stated does not hold for the responses that \<^verbatim>\<open>client.Do\<close> follows as
  redirects. In the run below the server answers the first fetch of
  \<^verbatim>\<open>sub/dir/file.conf\<close> with status 302 and the \<^verbatim>\<open>Location\<close> \<^verbatim>\<open>/elsewhere\<close>; the
  client sends the next request there and gets status 200. \<^verbatim>\<open>sendReq\<close> never sees the
  302: nothing is written to standard error, the bundle of the package in progress is
  written, and the run ends with exit code 0.
\<close>

theorem redirect_is_followed:
  "fst (main demoCmd (redirectingEnv
      [(Response 200 ''packages'' None, []), (Response 200 ''listing'' None, []),
       (Response 302 ''moved'' None, ''/elsewhere''), (Response 200 ''old'' None, []),
       (Response 200 ''new'' None, []), (Response 200 ''nothing'' None, [])])) = 0 \<and>
   stderr (snd (main demoCmd (redirectingEnv
      [(Response 200 ''packages'' None, []), (Response 200 ''listing'' None, []),
       (Response 302 ''moved'' None, ''/elsewhere''), (Response 200 ''old'' None, []),
       (Response 200 ''new'' None, []), (Response 200 ''nothing'' None, [])]))) = [] \<and>
   map hop (redirects (snd (main demoCmd (redirectingEnv
      [(Response 200 ''packages'' None, []), (Response 200 ''listing'' None, []),
       (Response 302 ''moved'' None, ''/elsewhere''), (Response 200 ''old'' None, []),
       (Response 200 ''new'' None, []), (Response 200 ''nothing'' None, [])])))) =
     [(''/v1/config/files/my%20pkg/s1/sub/dir/file.conf'', 302, ''/elsewhere'')] \<and>
   map pathOf (exchanges (events (snd (main demoCmd (redirectingEnv
      [(Response 200 ''packages'' None, []), (Response 200 ''listing'' None, []),
       (Response 302 ''moved'' None, ''/elsewhere''), (Response 200 ''old'' None, []),
       (Response 200 ''new'' None, []), (Response 200 ''nothing'' None, [])]))))) =
     [''/v1/config/packages'', ''/v1/config/stages/my%20pkg/s1'',
      ''/v1/config/files/my%20pkg/s1/sub/dir/file.conf'', ''/v1/config/files/my%20pkg/s1/sub/dir/file.conf'',
      ''/v1/config/stages/etc/s3''] \<and>
   fileEvents (events (snd (main demoCmd (redirectingEnv
      [(Response 200 ''packages'' None, []), (Response 200 ''listing'' None, []),
       (Response 302 ''moved'' None, ''/elsewhere''), (Response 200 ''old'' None, []),
       (Response 200 ''new'' None, []), (Response 200 ''nothing'' None, [])])))) =
     [Created ''my%20pkg.json'',
      Wrote ''my%20pkg.json''
        (''{'' @ quoted ''files'' @ '':{'' @ quoted ''sub/dir/file.conf'' @ '':'' @ quoted ''new'' @ ''}}'' @ [newline]),
      Closed ''my%20pkg.json'']"
  by (simp only: redirect_run enc_new)

text \<open>
  C3, amended. When the response \<^verbatim>\<open>client.Do\<close> returns to \<^verbatim>\<open>sendReq\<close> has a status
  other than 200, \<^verbatim>\<open>sendReq\<close> appends the body to standard error and returns
  \<^verbatim>\<open>badHttpStatus\<close> with that status, whose message is \<^verbatim>\<open>HTTP\<close> and the number. The
  response of the server to the request is the one \<^verbatim>\<open>client.Do\<close> returns when its
  status is none of 301, 302, 303, 307 and 308, or when it has no \<^verbatim>\<open>Location\<close>. When
  a run of \<^verbatim>\<open>main\<close> has a returned response with a status other than 200 among its
  events, the exit code is 1; the exchange is the last event of the run and no earlier
  returned response had another status than 200, so nothing is requested or written
  after it; standard error ends with the body and the line of the message; and from the
  last stage listing requested on (the one of the package in progress; from the start,
  when there is none) the events are exchanges only: no file of that package is created
  or written.
\<close>

theorem returned_bad_status_aborts:
  "(roundTrip env (events w0) (redirects w0) (wireFor w0 base m uri) = (Response c0 b0 rerr0, loc) \<and>
      c0 \<noteq> 200 \<and> (c0 \<notin> {301, 302, 303, 307, 308} \<or> loc = []) \<longrightarrow>
        fst (sendReq env base m uri None out w0) = Inl (badHttpStatus c0) \<and>
        events (snd (sendReq env base m uri None out w0)) =
          events w0 @ [Exchange (wireFor w0 base m uri) (Response c0 b0 rerr0)] \<and>
        stderr (snd (sendReq env base m uri None out w0)) = stderr w0 @ b0) \<and>
   (sendReq env base method uri inp out w0 = (r, w0') \<and>
      events w0' = events w0 @ [Exchange q0 (Response c0 b0 rerr0)] \<and> c0 \<noteq> 200 \<longrightarrow>
        r = Inl (badHttpStatus c0) \<and> stderr w0' = stderr w0 @ b0 \<and>
        Error (badHttpStatus c0) = ''HTTP '' @ itoa c0) \<and>
   (main cl env = (code, w) \<and> Exchange q (Response c b rerr) \<in> set (events w) \<and> c \<noteq> 200 \<longrightarrow>
        code = 1 \<and>
        (\<exists>pre. events w = pre @ [Exchange q (Response c b rerr)] \<and> \<not> list_ex badStatus pre) \<and>
        (\<exists>s. stderr w = s @ b @ ''HTTP '' @ itoa c @ [newline]) \<and>
        list_all isExchange (sinceLastStages (events w)))"
proof (intro conjI impI)
  assume a: "roundTrip env (events w0) (redirects w0) (wireFor w0 base m uri) = (Response c0 b0 rerr0, loc) \<and>
      c0 \<noteq> 200 \<and> (c0 \<notin> {301, 302, 303, 307, 308} \<or> loc = [])"
  then have rt: "roundTrip env (events w0) (redirects w0) (wireFor w0 base m uri) = (Response c0 b0 rerr0, loc)"
    and nr: "c0 \<notin> {301, 302, 303, 307, 308} \<or> loc = []" and c0: "c0 \<noteq> 200"
    by blast+
  from do_loop_direct [OF rt nr] have ret: "returned env w0 (wireFor w0 base m uri) = Response c0 b0 rerr0"
    by (simp add: returned_def)
  show "fst (sendReq env base m uri None out w0) = Inl (badHttpStatus c0)"
    using c0 by (simp add: sendReq_None ret answer_def)
  show "events (snd (sendReq env base m uri None out w0)) =
          events w0 @ [Exchange (wireFor w0 base m uri) (Response c0 b0 rerr0)]"
    by (simp add: sendReq_None events_sent ret)
  show "stderr (snd (sendReq env base m uri None out w0)) = stderr w0 @ b0"
    using c0 by (simp add: sendReq_None stderr_sent ret echoed_def)
next
  assume a: "sendReq env base method uri inp out w0 = (r, w0') \<and>
      events w0' = events w0 @ [Exchange q0 (Response c0 b0 rerr0)] \<and> c0 \<noteq> 200"
  from sendReq_any [of env base "method" uri inp out w0 r w0'] a obtain q' resp where
    x: "events w0' = events w0 @ [Exchange q' resp]" "r = answer out resp"
      "stderr w0' = stderr w0 @ echoed resp"
    by auto
  with a have "resp = Response c0 b0 rerr0" by simp
  with x a show "r = Inl (badHttpStatus c0)" "stderr w0' = stderr w0 @ b0"
    by (simp_all add: answer_def echoed_def)
  show "Error (badHttpStatus c0) = ''HTTP '' @ itoa c0" by simp
next
  assume a: "main cl env = (code, w) \<and> Exchange q (Response c b rerr) \<in> set (events w) \<and> c \<noteq> 200"
  then have "badStatus (Exchange q (Response c b rerr))" "Exchange q (Response c b rerr) \<in> set (events w)"
    by simp_all
  then have "list_ex badStatus (events w)" unfolding list_ex_iff by (rule rev_bexI [rotated])
  with main_bad [of cl env code w] a have code: "code = 1" and be: "badEnd w" by auto
  from be obtain pre q' c' b' rerr' s where
    e: "events w = pre @ [Exchange q' (Response c' b' rerr')]" "\<not> list_ex badStatus pre"
      "stderr w = s @ b' @ ''HTTP '' @ itoa c' @ [newline]"
      "list_all isExchange (sinceLastStages (events w))"
    unfolding badEnd_def by blast
  have "badStatus (Exchange q (Response c b rerr))" using a by simp
  with e(2) have "Exchange q (Response c b rerr) \<notin> set pre" unfolding list_ex_iff by blast
  with a e(1) have same: "q' = q" "c' = c" "b' = b" "rerr' = rerr" by auto
  show "code = 1" by (rule code)
  show "\<exists>pre. events w = pre @ [Exchange q (Response c b rerr)] \<and> \<not> list_ex badStatus pre"
    using e(1,2) same by blast
  show "\<exists>s. stderr w = s @ b @ ''HTTP '' @ itoa c @ [newline]"
    using e(3) same by blast
  show "list_all isExchange (sinceLastStages (events w))" by (rule e(4))
qed

text \<open>
  A 404 to the first request is what \<^verbatim>\<open>sendReq\<close> returns as \<^verbatim>\<open>badHttpStatus\<close>. In a
  run whose second fetch is answered with 404: exit code 1, the body and \<^verbatim>\<open>HTTP 404\<close>
  on standard error, four exchanges and no file operation.
\<close>

theorem returned_bad_status_aborts_witness:
  "roundTrip (demoEnv [Response 404 ''not found'' None]) (events demoWorld) (redirects demoWorld)
       (wireFor demoWorld 2 ''GET'' ''/v1/config/packages'') = (Response 404 ''not found'' None, []) \<and>
   fst (sendReq (demoEnv [Response 404 ''not found'' None]) 2 ''GET'' ''/v1/config/packages'' None
          (OutNil :: unit out) demoWorld) = Inl (badHttpStatus 404) \<and>
   stderr (snd (sendReq (demoEnv [Response 404 ''not found'' None]) 2 ''GET'' ''/v1/config/packages'' None
          (OutNil :: unit out) demoWorld)) = ''not found'' \<and>
   fst (main demoCmd (demoEnv [Response 200 ''packages'' None, Response 200 ''listing'' None,
      Response 200 ''old'' None, Response 404 ''not found'' None])) = 1 \<and>
   map bodyOf (events (snd (main demoCmd (demoEnv [Response 200 ''packages'' None, Response 200 ''listing'' None,
      Response 200 ''old'' None, Response 404 ''not found'' None])))) =
     [''packages'', ''listing'', ''old'', ''not found''] \<and>
   stderr (snd (main demoCmd (demoEnv [Response 200 ''packages'' None, Response 200 ''listing'' None,
      Response 200 ''old'' None, Response 404 ''not found'' None]))) = ''not found'' @ ''HTTP 404'' @ [newline] \<and>
   fileEvents (events (snd (main demoCmd (demoEnv [Response 200 ''packages'' None, Response 200 ''listing'' None,
      Response 200 ''old'' None, Response 404 ''not found'' None])))) = []"
proof -
  let ?E = "demoEnv [Response 200 ''packages'' None, Response 200 ''listing'' None,
      Response 200 ''old'' None, Response 404 ''not found'' None]"
  let ?F = "demoEnv [Response 404 ''not found'' None]"
  have rt: "roundTrip ?F (events demoWorld) (redirects demoWorld)
       (wireFor demoWorld 2 ''GET'' ''/v1/config/packages'') = (Response 404 ''not found'' None, [])"
    by (simp add: demoEnv_fields scripted_def events_demoWorld)
  have "(404::int) \<noteq> 200" by simp
  with returned_bad_status_aborts [THEN conjunct1, rule_format, of ?F demoWorld 2 "''GET''" "''/v1/config/packages''"
      404 "''not found''" None "[]" "OutNil :: unit out"] rt
  have s: "fst (sendReq ?F 2 ''GET'' ''/v1/config/packages'' None (OutNil :: unit out) demoWorld) = Inl (badHttpStatus 404)"
    "stderr (snd (sendReq ?F 2 ''GET'' ''/v1/config/packages'' None (OutNil :: unit out) demoWorld)) = stderr demoWorld @ ''not found''"
    by blast+
  have e: "stderr demoWorld = []" by (simp add: demoWorld_def stderr_template)
  from demo_404(4) obtain q where
    q: "Exchange q (Response 404 ''not found'' None) \<in> set (events (snd (main demoCmd ?E)))"
    by blast
  have run: "main demoCmd ?E = (fst (main demoCmd ?E), snd (main demoCmd ?E))" by simp
  have "(404::int) \<noteq> 200" by simp
  with returned_bad_status_aborts [THEN conjunct2, THEN conjunct2, rule_format, of demoCmd ?E "fst (main demoCmd ?E)" "snd (main demoCmd ?E)"
      q 404 "''not found''" None] run q
  have "fst (main demoCmd ?E) = 1" by blast
  with demo_404(1,2,3) rt s e show ?thesis by simp
qed

subsection \<open>C4: the paths of the requests\<close>

text \<open>
  C4. Every request a run hands to \<^verbatim>\<open>client.Do\<close> has one of three paths (the field
  \<^verbatim>\<open>Path\<close> of its URL, as the program builds it): \<^verbatim>\<open>/v1/config/packages\<close>; the
  stages path of a package with a name and an active stage, in which both are passed
  through \<^verbatim>\<open>url.PathEscape\<close>; or the files path of such a package, in which the package
  name and the stage name are escaped in the same way and the name of a listed entry
  of type \<^verbatim>\<open>file\<close> with a \<^verbatim>\<open>/\<close> is appended as it is. For one package: the first
  request is the stage listing with the escaped names, and the requests after it are
  the fetches of the wanted entries of the listing just received, in order, each path
  ending with the name exactly as decoded. An escaped name consists of letters, digits,
  \<^verbatim>\<open>-_.~$&+:=@\<close> and the \<^verbatim>\<open>%\<close> of the escapes only, so it holds no \<^verbatim>\<open>/\<close>, space or
  \<^verbatim>\<open>?\<close>, while the file name keeps them.
\<close>

theorem request_paths:
  "(main cl env = (code, w) \<and> e \<in> set (events w) \<and> isExchange e \<longrightarrow>
      pathOf e = ''/v1/config/packages'' \<or>
      (\<exists>pkg :: package. pkgName pkg \<noteq> [] \<and> pkgActiveStage pkg \<noteq> [] \<and>
         (pathOf e = ''/v1/config/stages/'' @ PathEscape (pkgName pkg) @ ''/'' @ PathEscape (pkgActiveStage pkg) \<or>
          (\<exists>f :: file_entry. fileType f = ''file'' \<and> CHR ''/'' \<in> set (fileName f) \<and>
               pathOf e = ''/v1/config/files/'' @ PathEscape (pkgName pkg) @ ''/'' @
                            PathEscape (pkgActiveStage pkg) @ ''/'' @ fileName f)))) \<and>
   (exportPkg env req pkg w1 = (r, w2) \<longrightarrow>
      (\<exists>q resp evs fevs k.
          events w2 = events w1 @ Exchange q resp # evs @ fevs \<and>
          Path (wURL q) = ''/v1/config/stages/'' @ PathEscape (pkgName pkg) @ ''/'' @ PathEscape (pkgActiveStage pkg) \<and>
          list_all isExchange evs \<and> list_all (\<lambda>e. \<not> isExchange e) fevs \<and>
          map pathOf evs =
            map (\<lambda>f. ''/v1/config/files/'' @ PathEscape (pkgName pkg) @ ''/'' @
                        PathEscape (pkgActiveStage pkg) @ ''/'' @ fileName f)
              (take k (wantedOf env resp)))) \<and>
   (\<forall>c. c \<in> set (PathEscape s) \<longrightarrow> isAlnum c \<or> c \<in> set ''-_.~$&+:=@%'')"
proof (intro conjI impI allI)
  assume "main cl env = (code, w) \<and> e \<in> set (events w) \<and> isExchange e"
  then have a: "main cl env = (code, w)" "e \<in> set (events w)" "isExchange e" by simp_all
  have "pathOf e = ''/v1/config/packages'' \<or>
         (\<exists>pkg. wantedPkg pkg \<and> (pathOf e = stagesPath pkg \<or> (\<exists>f. wantedFile f \<and> pathOf e = filesPath pkg f)))"
    by (rule main_paths [OF a])
  then show "pathOf e = ''/v1/config/packages'' \<or>
      (\<exists>pkg :: package. pkgName pkg \<noteq> [] \<and> pkgActiveStage pkg \<noteq> [] \<and>
         (pathOf e = ''/v1/config/stages/'' @ PathEscape (pkgName pkg) @ ''/'' @ PathEscape (pkgActiveStage pkg) \<or>
          (\<exists>f :: file_entry. fileType f = ''file'' \<and> CHR ''/'' \<in> set (fileName f) \<and>
               pathOf e = ''/v1/config/files/'' @ PathEscape (pkgName pkg) @ ''/'' @
                            PathEscape (pkgActiveStage pkg) @ ''/'' @ fileName f)))"
    unfolding Contains_slash conj_assoc .
next
  assume "exportPkg env req pkg w1 = (r, w2)"
  from exportPkg_shape [OF this] show "\<exists>q resp evs fevs k.
          events w2 = events w1 @ Exchange q resp # evs @ fevs \<and>
          Path (wURL q) = ''/v1/config/stages/'' @ PathEscape (pkgName pkg) @ ''/'' @ PathEscape (pkgActiveStage pkg) \<and>
          list_all isExchange evs \<and> list_all (\<lambda>e. \<not> isExchange e) fevs \<and>
          map pathOf evs =
            map (\<lambda>f. ''/v1/config/files/'' @ PathEscape (pkgName pkg) @ ''/'' @
                        PathEscape (pkgActiveStage pkg) @ ''/'' @ fileName f)
              (take k (wantedOf env resp))"
    by blast
next
  fix c assume "c \<in> set (PathEscape s)"
  then show "isAlnum c \<or> c \<in> set ''-_.~$&+:=@%''" by (rule PathEscape_chars)
qed

text \<open>
  The package \<^verbatim>\<open>my pkg\<close> is requested as \<^verbatim>\<open>my%20pkg\<close>; its file \<^verbatim>\<open>conf.d/a b?.conf\<close> is
  requested with the space and the question mark in the path, where \<^verbatim>\<open>url.PathEscape\<close>
  would have given \<^verbatim>\<open>conf.d%2Fa%20b%3F.conf\<close>.
\<close>

theorem request_paths_witness:
  "map pathOf (exchanges (events (snd (exportPkg (demoEnv [Response 200 ''spaces'' None, Response 200 ''x = 1'' None])
      2 demoPkg demoWorld)))) =
     [''/v1/config/stages/my%20pkg/s1'', ''/v1/config/files/my%20pkg/s1/conf.d/a b?.conf''] \<and>
   PathEscape ''my pkg'' = ''my%20pkg'' \<and>
   PathEscape ''conf.d/a b?.conf'' = ''conf.d%2Fa%20b%3F.conf'' \<and>
   CHR ''/'' \<notin> set (PathEscape ''conf.d/a b?.conf'')"
proof -
  have "CHR ''/'' \<in> set (PathEscape ''conf.d/a b?.conf'') \<longrightarrow>
          isAlnum CHR ''/'' \<or> CHR ''/'' \<in> set ''-_.~$&+:=@%''"
    using request_paths [THEN conjunct2, THEN conjunct2, of "''conf.d/a b?.conf''"] by blast
  then have "CHR ''/'' \<notin> set (PathEscape ''conf.d/a b?.conf'')"
    by (auto simp add: isAlnum_def)
  moreover have "PathEscape ''conf.d/a b?.conf'' = ''conf.d%2Fa%20b%3F.conf''"
    by (simp add: PathEscape_def escapeByte_def shouldEscape_def isAlnum_def upperhex_def)
  ultimately show ?thesis using demo_spaces PathEscape_my_pkg by simp
qed

end
